theory Spec2Isabelle
  imports Complex_Main "HOL-Library.Product_Lexorder"
begin

section \<open>ECMAScript values used by the canvas component\<close>

text \<open>
  A number of the program is a finite value, one of the two infinities, or NaN. Finite
  values are exact rationals: the rounding of IEEE double arithmetic is outside this
  model, and negative zero is identified with zero.
\<close>

datatype jsnum = Fin rat | PInf | NInf | NaN

text \<open>\<open>x / w\<close> and \<open>x * w\<close> for a finite \<open>w\<close> (an extent of the image or of the OCR page).\<close>

fun js_div :: "jsnum \<Rightarrow> rat \<Rightarrow> jsnum" where
  "js_div (Fin a) w =
     (if w = 0 then (if a = 0 then NaN else if 0 < a then PInf else NInf) else Fin (a / w))"
| "js_div PInf w = (if w < 0 then NInf else PInf)"
| "js_div NInf w = (if w < 0 then PInf else NInf)"
| "js_div NaN w = NaN"

fun js_mul :: "jsnum \<Rightarrow> rat \<Rightarrow> jsnum" where
  "js_mul (Fin a) w = Fin (a * w)"
| "js_mul PInf w = (if w = 0 then NaN else if 0 < w then PInf else NInf)"
| "js_mul NInf w = (if w = 0 then NaN else if 0 < w then NInf else PInf)"
| "js_mul NaN w = NaN"

fun js_sub :: "jsnum \<Rightarrow> jsnum \<Rightarrow> jsnum" where
  "js_sub (Fin a) (Fin b) = Fin (a - b)"
| "js_sub NaN y = NaN"
| "js_sub x NaN = NaN"
| "js_sub PInf PInf = NaN"
| "js_sub NInf NInf = NaN"
| "js_sub PInf y = PInf"
| "js_sub NInf y = NInf"
| "js_sub (Fin a) PInf = NInf"
| "js_sub (Fin a) NInf = PInf"

text \<open>\<open>Math.round\<close>: the nearest integer, a tie going towards plus infinity.\<close>

fun js_round :: "jsnum \<Rightarrow> jsnum" where
  "js_round (Fin a) = Fin (of_int \<lfloor>a + 1 / 2\<rfloor>)"
| "js_round x = x"

text \<open>\<open>Math.min(...xs)\<close> and \<open>Math.max(...xs)\<close>; of no argument they are the infinities.\<close>

fun js_min2 :: "jsnum \<Rightarrow> jsnum \<Rightarrow> jsnum" where
  "js_min2 NaN y = NaN"
| "js_min2 x NaN = NaN"
| "js_min2 NInf y = NInf"
| "js_min2 x NInf = NInf"
| "js_min2 PInf y = y"
| "js_min2 x PInf = x"
| "js_min2 (Fin a) (Fin b) = Fin (min a b)"

fun js_max2 :: "jsnum \<Rightarrow> jsnum \<Rightarrow> jsnum" where
  "js_max2 NaN y = NaN"
| "js_max2 x NaN = NaN"
| "js_max2 PInf y = PInf"
| "js_max2 x PInf = PInf"
| "js_max2 NInf y = y"
| "js_max2 x NInf = x"
| "js_max2 (Fin a) (Fin b) = Fin (max a b)"

definition Math_min :: "jsnum list \<Rightarrow> jsnum" where
  "Math_min xs = foldl js_min2 PInf xs"

definition Math_max :: "jsnum list \<Rightarrow> jsnum" where
  "Math_max xs = foldl js_max2 NInf xs"

text \<open>An array element read beyond the end is \<open>undefined\<close>, which arithmetic turns into NaN.\<close>

fun to_number :: "jsnum option \<Rightarrow> jsnum" where
  "to_number None = NaN"
| "to_number (Some x) = x"

text \<open>
  The conversions between numbers and text, and \<open>decodeURIComponent\<close>, are primitives
  of the language. The component is modelled over any implementation of them; what a
  property needs of them is a hypothesis of its theorem.
\<close>

datatype error = TypeError | URIError | RenderError

record js_env =
  numToString :: "jsnum \<Rightarrow> string"
  parseFloat :: "string \<Rightarrow> jsnum"
  decodeURIComponent :: "string \<Rightarrow> string option"

definition bindE :: "error + 'a \<Rightarrow> ('a \<Rightarrow> error + 'b) \<Rightarrow> error + 'b" where
  "bindE m f = (case m of Inl e \<Rightarrow> Inl e | Inr x \<Rightarrow> f x)"

text \<open>\<open>String.prototype.split\<close> at a one-character separator, and \<open>Array.prototype.join\<close>.\<close>

fun split_on :: "char \<Rightarrow> string \<Rightarrow> string list" where
  "split_on c [] = [[]]"
| "split_on c (x # xs) =
     (if x = c then [] # split_on c xs
      else (case split_on c xs of [] \<Rightarrow> [[x]] | t # ts \<Rightarrow> (x # t) # ts))"

fun join_with :: "string \<Rightarrow> string list \<Rightarrow> string" where
  "join_with sep [] = []"
| "join_with sep [t] = t"
| "join_with sep (t # u # ts) = t @ sep @ join_with sep (u # ts)"

text \<open>
  The loops \<open>for (i = 0; i < a.length; i += 2)\<close> read \<open>a[i]\<close> and \<open>a[i + 1]\<close>; the
  latter is \<open>undefined\<close> at the end of an array of odd length.
\<close>

fun vertex_pairs :: "'a list \<Rightarrow> ('a \<times> 'a option) list" where
  "vertex_pairs [] = []"
| "vertex_pairs [x] = [(x, None)]"
| "vertex_pairs (x # y # zs) = (x, Some y) # vertex_pairs zs"

text \<open>\<open>a.filter((value, index) => index % 2 === 0)\<close> and \<open>... === 1\<close>.\<close>

fun even_indexed :: "'a list \<Rightarrow> 'a list" where
  "even_indexed [] = []"
| "even_indexed [x] = [x]"
| "even_indexed (x # y # zs) = x # even_indexed zs"

fun odd_indexed :: "'a list \<Rightarrow> 'a list" where
  "odd_indexed [] = []"
| "odd_indexed [x] = []"
| "odd_indexed (x # y # zs) = y # odd_indexed zs"

section \<open>Data model\<close>

text \<open>
  Modelled from the spec: the interfaces \<open>IRegion\<close>, \<open>ILabelData\<close>, \<open>ILabel\<close>,
  \<open>IFormRegion\<close> and \<open>IAsset\<close> are declared in \<open>models/applicationState\<close>, which
  is not among the sources. Their fields are those of the data model of the spec (Region,
  LabelData, Label, LabelValue), under the names by which the component reads and writes
  them; of an asset, the id and the name. A name that several records share, or that is a
  constant of the logic, is told apart by a prime or by the record it belongs to
  (\<open>labelValue\<close> is the field \<open>value\<close> of a label). A field that may be missing or
  \<open>undefined\<close> is an option.
\<close>

record bounding_box =
  height :: jsnum
  width :: jsnum
  left :: jsnum
  top' :: jsnum

datatype region_type = Polygon

record IRegion =
  id' :: string
  type' :: region_type
  tags :: "string list"
  boundingBox :: bounding_box
  points :: "(jsnum \<times> jsnum option) list"
  value' :: string
  pageNumber :: int

record IFormRegion =
  page :: int
  text' :: string
  boundingBoxes :: "jsnum list list option"

record ILabel =
  label :: string
  key :: "string option"
  labelValue :: "IFormRegion list option"

record ILabelData =
  document :: string
  labels :: "ILabel list option"

text \<open>
  The OCR result is untyped in the component; these are the fields it reads: of a word
  \<open>text\<close> and \<open>boundingBox\<close>, of a line \<open>words\<close>, of a page \<open>page\<close>, \<open>width\<close>,
  \<open>height\<close> and \<open>lines\<close>.
\<close>

record ocr_word =
  wordText :: string
  wordBoundingBox :: "rat list"

record ocr_line =
  words :: "ocr_word list option"

record ocr_page =
  ocrPage :: int
  ocrWidth :: rat
  ocrHeight :: rat
  ocrLines :: "ocr_line list option"

text \<open>An extent is the array \<open>[minx, miny, maxx, maxy]\<close>.\<close>

type_synonym extent = "rat \<times> rat \<times> rat \<times> rat"

text \<open>
  The OCR result of a document: its pages are under \<open>recognitionResults\<close> or under
  \<open>analyzeResult.readResults\<close>, according to the schema of the service.
\<close>

record ocr_result =
  recognitionResults :: "ocr_page list option"
  readResults :: "ocr_page list option"

text \<open>
  \<open>ocrForCurrentPage\<close> is the empty object, a page of the OCR result, or \<open>undefined\<close>
  when the result has no entry for the current page.
\<close>

datatype ocr_for_page = OcrEmpty | OcrUndefined | OcrOf ocr_page

text \<open>A vector feature of the map, with the properties the component sets on it.\<close>

record feature =
  featureId :: string
  featureText :: string
  geometry :: "(jsnum \<times> jsnum) list"
  boundingbox :: "rat list option"
  highlighted :: bool
  isOcrProposal :: bool

record IAsset =
  assetId :: string
  assetName :: string

text \<open>A page as the renderer of the PDF or TIFF document delivers it.\<close>

record page_image =
  dataUrl :: string
  pixelWidth :: rat
  pixelHeight :: rat

text \<open>
  The state of the component: the fields of \<open>ICanvasState\<close> (with \<open>currentAsset\<close>
  spread into \<open>asset\<close>, \<open>regions\<close> and \<open>labelData\<close>) and the instance fields
  \<open>imageMap\<close> (the features on the map, or \<open>None\<close> while the reference is null),
  \<open>selectedRegionIds\<close> and \<open>regionOrders\<close> (an array with holes of objects from region
  id to rank). \<open>setState\<close> is applied at once; the callbacks to the host
  (\<open>onAssetMetadataChanged\<close>, \<open>onSelectedRegionsChanged\<close>) and the redrawing of
  features change nothing of it.
\<close>

record ICanvasState =
  asset :: IAsset
  regions :: "IRegion list"
  labelData :: "ILabelData option"
  imageUri :: "string option"
  imageWidth :: rat
  imageHeight :: rat
  numPages :: int
  currentPage :: int
  ocr :: "ocr_result option"
  ocrForCurrentPage :: ocr_for_page
  pdfFile :: "page_image list option"
  tiffImages :: "page_image list"
  isError :: bool
  errorTitle :: "string option"
  errorMessage :: "string option"
  imageMap :: "feature list option"
  selectedRegionIds :: "string list"
  regionOrders :: "(string \<rightharpoonup> nat) option list"

section \<open>Region identity\<close>

definition createRegionIdFromBoundingBox :: "js_env \<Rightarrow> jsnum list \<Rightarrow> int \<Rightarrow> string" where
  "createRegionIdFromBoundingBox env bbox pg =
     join_with '','' (map (numToString env) bbox) @ '':'' @ numToString env (Fin (of_int pg))"

text \<open>
  The decoding \<open>regionId.split(",").map(parseFloat)\<close> of \<open>handleFeatureSelect\<close>,
  \<open>convertRegionToFeature\<close> and \<open>convertRegionsToLabelData\<close>.
\<close>

definition parseRegionId :: "js_env \<Rightarrow> string \<Rightarrow> jsnum list" where
  "parseRegionId env regionId = map (parseFloat env) (split_on CHR '','' regionId)"

section \<open>Coordinate transform\<close>

definition createBoundingBoxVectorFeature ::
  "js_env \<Rightarrow> string \<Rightarrow> rat list \<Rightarrow> extent \<Rightarrow> extent \<Rightarrow> int \<Rightarrow> feature" where
  "createBoundingBoxVectorFeature env txt bbox imgExtent ocrExtent pg =
     (case imgExtent of (ix0, iy0, ix1, iy1) \<Rightarrow>
      case ocrExtent of (ox0, oy0, ox1, oy1) \<Rightarrow>
        let imgW = ix1 - ix0;
            imgH = iy1 - iy0;
            ocrW = ox1 - ox0;
            ocrH = oy1 - oy0;
            vs = vertex_pairs (map Fin bbox);
            coordinates = map (\<lambda>(x, y).
                (js_round (js_mul (js_div x ocrW) imgW),
                 js_round (js_mul (js_sub (Fin 1) (js_div (to_number y) ocrH)) imgH))) vs;
            polygonPoints = concat (map (\<lambda>(x, y).
                [js_div x ocrW, js_div (to_number y) ocrH]) vs);
            fid = createRegionIdFromBoundingBox env polygonPoints pg
        in \<lparr> featureId = fid, featureText = txt, geometry = coordinates,
             boundingbox = Some bbox, highlighted = False, isOcrProposal = True \<rparr>)"

section \<open>Region order index\<close>

text \<open>The regular expression \<open>/^[_]+$/\<close>: one underscore or more, from start to end.\<close>

fun match_underscores :: "string \<Rightarrow> bool" where
  "match_underscores [] = False"
| "match_underscores [c] = (c = CHR ''_'')"
| "match_underscores (c # d # cs) = (c = CHR ''_'' \<and> match_underscores (d # cs))"

definition shouldDisplayOcrWord :: "string \<Rightarrow> bool" where
  "shouldDisplayOcrWord txt = (\<not> match_underscores txt)"

text \<open>
  \<open>a[i] = v\<close> on an array with holes: beyond the end the array grows, the new slots
  between being holes. A negative index names a property that is no element of the array,
  which \<open>Array.prototype.some\<close> never visits.
\<close>

definition array_set :: "'a option list \<Rightarrow> int \<Rightarrow> 'a \<Rightarrow> 'a option list" where
  "array_set xs i v =
     (if i < 0 then xs
      else if nat i < length xs then xs[nat i := Some v]
      else xs @ replicate (nat i - length xs) None @ [Some v])"

text \<open>
  The body of \<open>line.words.forEach\<close> in \<open>buildRegionOrders\<close>, on the object of the page
  and the counter \<open>order\<close>.
\<close>

definition orderWord ::
  "js_env \<Rightarrow> extent \<Rightarrow> extent \<Rightarrow> int \<Rightarrow> ocr_word \<Rightarrow> (string \<rightharpoonup> nat) \<times> nat
     \<Rightarrow> (string \<rightharpoonup> nat) \<times> nat" where
  "orderWord env imgExtent ocrExtent pg w acc =
     (case acc of (m, order) \<Rightarrow>
        if shouldDisplayOcrWord (wordText w)
        then (m(featureId (createBoundingBoxVectorFeature env (wordText w) (wordBoundingBox w)
                 imgExtent ocrExtent pg) \<mapsto> order), order + 1)
        else (m, order))"

definition orderLine ::
  "js_env \<Rightarrow> extent \<Rightarrow> extent \<Rightarrow> int \<Rightarrow> ocr_line \<Rightarrow> (string \<rightharpoonup> nat) \<times> nat
     \<Rightarrow> (string \<rightharpoonup> nat) \<times> nat" where
  "orderLine env imgExtent ocrExtent pg l acc =
     (case words l of None \<Rightarrow> acc
      | Some ws \<Rightarrow> fold (orderWord env imgExtent ocrExtent pg) ws acc)"

definition orderPage :: "js_env \<Rightarrow> extent \<Rightarrow> ocr_page \<Rightarrow> (string \<rightharpoonup> nat)" where
  "orderPage env imgExtent p =
     (let ocrExtent = (0, 0, ocrWidth p, ocrHeight p)
      in fst (case ocrLines p of None \<Rightarrow> (Map.empty, 0)
              | Some ls \<Rightarrow> fold (orderLine env imgExtent ocrExtent (ocrPage p)) ls (Map.empty, 0)))"

text \<open>
  Modelled from the spec: \<open>getImageExtent\<close> belongs to the \<open>ImageMap\<close> component,
  which is not among the sources. The spec scales display coordinates by the width and the
  height of the image; the component hands both to the map, whose extent is that of the
  image.
\<close>

definition getImageExtent :: "ICanvasState \<Rightarrow> extent" where
  "getImageExtent s = (0, 0, imageWidth s, imageHeight s)"

text \<open>\<open>ocrs.recognitionResults || (ocrs.analyzeResult && ocrs.analyzeResult.readResults)\<close>.\<close>

definition ocrResultPages :: "ocr_result \<Rightarrow> ocr_page list option" where
  "ocrResultPages ocrs =
     (case recognitionResults ocrs of Some rs \<Rightarrow> Some rs | None \<Rightarrow> readResults ocrs)"

definition buildRegionOrders :: "js_env \<Rightarrow> ICanvasState \<Rightarrow> error + ICanvasState" where
  "buildRegionOrders env s =
     (case ocr s of None \<Rightarrow> Inl TypeError
      | Some ocrs \<Rightarrow>
        (case ocrResultPages ocrs of
           None \<Rightarrow> Inl TypeError
         | Some ocrResults \<Rightarrow>
           (case imageMap s of None \<Rightarrow> Inl TypeError
            | Some fs \<Rightarrow>
              Inr (s\<lparr>regionOrders :=
                     fold (\<lambda>p ros. array_set ros (ocrPage p - 1) (orderPage env (getImageExtent s) p))
                       ocrResults (regionOrders s)\<rparr>))))"

text \<open>
  \<open>getRegionOrder\<close>: the first page of the index, in the order of the array, whose object has
  the region id; \<open>{page: 1, order: 0}\<close> when none has.
\<close>

fun findRegionOrder :: "(string \<rightharpoonup> nat) option list \<Rightarrow> string \<Rightarrow> nat \<Rightarrow> (int \<times> nat) option" where
  "findRegionOrder [] regionId pageIndex = None"
| "findRegionOrder (None # ros) regionId pageIndex = findRegionOrder ros regionId (pageIndex + 1)"
| "findRegionOrder (Some m # ros) regionId pageIndex =
     (case m regionId of
        Some order \<Rightarrow> Some (int pageIndex + 1, order)
      | None \<Rightarrow> findRegionOrder ros regionId (pageIndex + 1))"

definition getRegionOrder :: "(string \<rightharpoonup> nat) option list \<Rightarrow> string \<Rightarrow> int \<times> nat" where
  "getRegionOrder ros regionId =
     (case findRegionOrder ros regionId 0 of None \<Rightarrow> (1, 0) | Some orderInfo \<Rightarrow> orderInfo)"

definition compareRegionOrder :: "(string \<rightharpoonup> nat) option list \<Rightarrow> IRegion \<Rightarrow> IRegion \<Rightarrow> int" where
  "compareRegionOrder ros r1 r2 =
     (let order1 = getRegionOrder ros (id' r1);
          order2 = getRegionOrder ros (id' r2)
      in if fst order1 = fst order2 then (if snd order1 > snd order2 then 1 else - 1)
         else if fst order1 > fst order2 then 1
         else - 1)"


section \<open>Arrays and sets of the language\<close>

text \<open>\<open>Array.prototype.findIndex\<close>, which is \<open>-1\<close> when no element satisfies the test.\<close>

fun findIndex :: "('a \<Rightarrow> bool) \<Rightarrow> 'a list \<Rightarrow> int" where
  "findIndex P [] = - 1"
| "findIndex P (x # xs) =
     (if P x then 0 else (let i = findIndex P xs in if i < 0 then - 1 else i + 1))"

text \<open>
  \<open>a.splice(start, 1)\<close>: a negative \<open>start\<close> counts from the end of the array, so
  \<open>splice(-1, 1)\<close> removes the last element.
\<close>

definition splice1 :: "int \<Rightarrow> 'a list \<Rightarrow> 'a list" where
  "splice1 start xs =
     (let k = (if start < 0 then max (int (length xs) + start) 0 else min start (int (length xs)))
      in take (nat k) xs @ drop (nat k + 1) xs)"

text \<open>The elements of \<open>new Set(xs)\<close> in the order of their insertion.\<close>

fun uniq_from :: "'a list \<Rightarrow> 'a list \<Rightarrow> 'a list" where
  "uniq_from seen [] = []"
| "uniq_from seen (x # xs) =
     (if x \<in> set seen then uniq_from seen xs else x # uniq_from (x # seen) xs)"

definition uniq :: "'a list \<Rightarrow> 'a list" where
  "uniq xs = uniq_from [] xs"

text \<open>
  \<open>Array.prototype.sort\<close> with a comparison function, as an insertion sort in which an
  element stays behind another exactly when the comparison of the two, in this order, is
  positive. The language leaves the order open where the comparison function is not
  consistent; \<open>compareRegionOrder\<close> answers \<open>-1\<close> for two regions of equal page and
  order, which this sort leaves in the order they had.
\<close>

fun insert_sorted :: "('a \<Rightarrow> 'a \<Rightarrow> int) \<Rightarrow> 'a \<Rightarrow> 'a list \<Rightarrow> 'a list" where
  "insert_sorted cmp x [] = [x]"
| "insert_sorted cmp x (y # ys) =
     (if 0 < cmp x y then y # insert_sorted cmp x ys else x # y # ys)"

definition array_sort :: "('a \<Rightarrow> 'a \<Rightarrow> int) \<Rightarrow> 'a list \<Rightarrow> 'a list" where
  "array_sort cmp xs = foldr (insert_sorted cmp) xs []"

section \<open>Label/region mapper\<close>

definition createRegion :: "js_env \<Rightarrow> jsnum list \<Rightarrow> string \<Rightarrow> string \<Rightarrow> int \<Rightarrow> IRegion" where
  "createRegion env bbox txt tagName pangeNumber =
     (let xAxisValues = even_indexed bbox;
          yAxisValues = odd_indexed bbox;
          l = Math_min xAxisValues;
          t = Math_min yAxisValues;
          r = Math_max xAxisValues;
          b = Math_max yAxisValues
      in \<lparr> id' = createRegionIdFromBoundingBox env bbox pangeNumber,
           type' = Polygon,
           tags = [tagName],
           boundingBox = \<lparr> height = js_sub b t, width = js_sub r l, left = l, top' = t \<rparr>,
           points = vertex_pairs bbox,
           value' = txt,
           pageNumber = pangeNumber \<rparr>)"

definition getBoundingBoxTextFromRegion :: "IFormRegion \<Rightarrow> nat \<Rightarrow> string" where
  "getBoundingBoxTextFromRegion formRegion boundingBoxIndex =
     (let regionValues = split_on CHR '' '' (text' formRegion)
      in if boundingBoxIndex < length regionValues then regionValues ! boundingBoxIndex else [])"

definition convertLabelDataToRegions :: "js_env \<Rightarrow> ILabelData \<Rightarrow> IRegion list" where
  "convertLabelDataToRegions env ld =
     (case labels ld of None \<Rightarrow> []
      | Some ls \<Rightarrow> concat (map (\<lambda>lb.
          case labelValue lb of None \<Rightarrow> []
          | Some vs \<Rightarrow> concat (map (\<lambda>formRegion.
              case boundingBoxes formRegion of None \<Rightarrow> []
              | Some bbs \<Rightarrow> map (\<lambda>(boundingBoxIndex, bbox).
                  createRegion env bbox (getBoundingBoxTextFromRegion formRegion boundingBoxIndex)
                    (label lb) (page formRegion))
                  (enumerate 0 bbs)) vs)) ls))"

text \<open>\<open>region.tags[0]\<close>, which is \<open>undefined\<close> for a region without tags.\<close>

definition firstTag :: "IRegion \<Rightarrow> string option" where
  "firstTag r = (case tags r of [] \<Rightarrow> None | t # ts \<Rightarrow> Some t)"

definition convertRegionsToLabelData :: "js_env \<Rightarrow> IRegion list \<Rightarrow> string \<Rightarrow> error + ILabelData" where
  "convertRegionsToLabelData env rs assetNm =
     (case decodeURIComponent env assetNm of
        None \<Rightarrow> Inl URIError
      | Some decoded \<Rightarrow>
          let fieldNames = concat (map (\<lambda>n. case n of None \<Rightarrow> [] | Some fieldName \<Rightarrow> [fieldName])
                                    (uniq (map firstTag rs)))
          in Inr \<lparr> document = last (split_on CHR ''/'' decoded),
                   labels = Some (map (\<lambda>fieldName.
                     \<lparr> label = fieldName, key = None,
                       labelValue = Some (map (\<lambda>r.
                           \<lparr> page = pageNumber r, text' = value' r,
                             boundingBoxes = Some [parseRegionId env (id' r)] \<rparr>)
                         (filter (\<lambda>r. fieldName \<in> set (tags r)) rs)) \<rparr>) fieldNames) \<rparr>)"

definition convertToRegionBoundingBox :: "jsnum list \<Rightarrow> bounding_box" where
  "convertToRegionBoundingBox polygon =
     (let xAxisValues = even_indexed polygon;
          yAxisValues = odd_indexed polygon;
          l = Math_min xAxisValues;
          t = Math_min yAxisValues;
          r = Math_max xAxisValues;
          b = Math_max yAxisValues
      in \<lparr> height = js_sub b t, width = js_sub r l, left = l, top' = t \<rparr>)"

definition convertToRegionPoints :: "jsnum list \<Rightarrow> (jsnum \<times> jsnum option) list" where
  "convertToRegionPoints polygon = vertex_pairs polygon"

section \<open>Region store\<close>

text \<open>
  Modelled from the spec: \<open>CanvasHelpers.setSingleTag\<close> is not among the sources. The spec
  says that applying a tag "replaces each selected region's tag list with \<open>[tag]\<close>".
\<close>

definition setSingleTag :: "string list \<Rightarrow> string \<Rightarrow> string list" where
  "setSingleTag ts tag = [tag]"

text \<open>
  Modelled from the spec: the \<open>ImageMap\<close> component is not among the sources. The spec
  names its operations \<open>addFeatures\<close>, \<open>removeFeature\<close>, \<open>getAllFeatures\<close> and
  \<open>getImageExtent\<close> on a surface of vector features: adding puts the features on the
  surface, removing takes the given feature from it (and \<open>removeAllFeatures\<close> all of
  them).
\<close>

definition addFeatures :: "feature list \<Rightarrow> feature list \<Rightarrow> feature list" where
  "addFeatures fs new = fs @ new"

definition removeFeature :: "feature \<Rightarrow> feature list \<Rightarrow> feature list" where
  "removeFeature f fs = remove1 f fs"

definition updateAssetRegions :: "js_env \<Rightarrow> IRegion list \<Rightarrow> ICanvasState \<Rightarrow> error + ICanvasState" where
  "updateAssetRegions env rs s =
     (case convertRegionsToLabelData env rs (assetName (asset s)) of
        Inl e \<Rightarrow> Inl e
      | Inr ld \<Rightarrow> Inr (s\<lparr>regions := rs, labelData := Some ld\<rparr>))"

text \<open>
  The test of \<open>getSelectedRegions\<close> is the result of \<open>selectedRegionIds.find\<close>, the id
  found, which counts as true unless it is the empty string.
\<close>

definition isSelectedRegion :: "ICanvasState \<Rightarrow> IRegion \<Rightarrow> bool" where
  "isSelectedRegion s r =
     (case find (\<lambda>i. id' r = i) (selectedRegionIds s) of None \<Rightarrow> False | Some i \<Rightarrow> i \<noteq> [])"

definition getSelectedRegions :: "ICanvasState \<Rightarrow> IRegion list" where
  "getSelectedRegions s = filter (isSelectedRegion s) (regions s)"

definition getIndexOfSelectedRegionIds :: "ICanvasState \<Rightarrow> string \<Rightarrow> int" where
  "getIndexOfSelectedRegionIds s regionId = findIndex (\<lambda>i. i = regionId) (selectedRegionIds s)"

definition isRegionSelected :: "ICanvasState \<Rightarrow> string \<Rightarrow> bool" where
  "isRegionSelected s regionId = (getIndexOfSelectedRegionIds s regionId \<noteq> - 1)"

definition getIndexOfCurrentRegions :: "ICanvasState \<Rightarrow> string \<Rightarrow> int" where
  "getIndexOfCurrentRegions s regionId = findIndex (\<lambda>r. id' r = regionId) (regions s)"

definition convertRegionToFeature :: "js_env \<Rightarrow> IRegion \<Rightarrow> extent \<Rightarrow> bool \<Rightarrow> feature" where
  "convertRegionToFeature env r imgExtent ocrProposal =
     (case imgExtent of (ix0, iy0, ix1, iy1) \<Rightarrow>
        let bbox = parseRegionId env (id' r);
            imgW = ix1 - ix0;
            imgH = iy1 - iy0;
            coordinates = map (\<lambda>(x, y).
                (js_round (js_mul x imgW),
                 js_round (js_mul (js_sub (Fin 1) (to_number y)) imgH))) (vertex_pairs bbox)
        in \<lparr> featureId = id' r, featureText = value' r, geometry = coordinates,
             boundingbox = None, highlighted = False, isOcrProposal = ocrProposal \<rparr>)"

definition addRegionsToAsset :: "js_env \<Rightarrow> IRegion list \<Rightarrow> ICanvasState \<Rightarrow> error + ICanvasState" where
  "addRegionsToAsset env rs s =
     (let regionsToBeKept = filter (\<lambda>assetRegion. findIndex (\<lambda>r. id' r = id' assetRegion) rs = - 1)
                              (regions s)
      in updateAssetRegions env (regionsToBeKept @ rs) s)"

definition addRegionsToImageMap :: "js_env \<Rightarrow> IRegion list \<Rightarrow> ICanvasState \<Rightarrow> ICanvasState" where
  "addRegionsToImageMap env rs s =
     (case imageMap s of None \<Rightarrow> s
      | Some allFeatures \<Rightarrow>
          let regionsNotInFeatures =
                filter (\<lambda>r. findIndex (\<lambda>f. featureId f = id' r) allFeatures = - 1) rs;
              featuresToAdd =
                map (\<lambda>r. convertRegionToFeature env r (getImageExtent s) False) regionsNotInFeatures
          in s\<lparr>imageMap := Some (addFeatures allFeatures featuresToAdd)\<rparr>)"

definition addRegions :: "js_env \<Rightarrow> IRegion list \<Rightarrow> ICanvasState \<Rightarrow> error + ICanvasState" where
  "addRegions env rs s =
     bindE (addRegionsToAsset env rs s) (\<lambda>s1.
       Inr (addRegionsToImageMap env (filter (\<lambda>r. pageNumber r = currentPage s1) rs) s1))"

definition deleteRegionsFromSelectedRegionIds :: "IRegion list \<Rightarrow> ICanvasState \<Rightarrow> ICanvasState" where
  "deleteRegionsFromSelectedRegionIds rs s =
     s\<lparr>selectedRegionIds :=
         fold (\<lambda>r ids. let regionIndex = findIndex (\<lambda>i. i = id' r) ids
                        in if 0 \<le> regionIndex then splice1 regionIndex ids else ids)
           rs (selectedRegionIds s)\<rparr>"

definition deleteRegionsFromAsset :: "js_env \<Rightarrow> IRegion list \<Rightarrow> ICanvasState \<Rightarrow> error + ICanvasState" where
  "deleteRegionsFromAsset env rs s =
     (let filteredRegions = filter (\<lambda>assetRegion. findIndex (\<lambda>r. id' r = id' assetRegion) rs = - 1)
                              (regions s)
      in updateAssetRegions env filteredRegions s)"

definition deleteRegionsFromImageMap :: "IRegion list \<Rightarrow> ICanvasState \<Rightarrow> ICanvasState" where
  "deleteRegionsFromImageMap rs s =
     (case imageMap s of None \<Rightarrow> s
      | Some allFeatures \<Rightarrow>
          let selectedFeatures =
                filter (\<lambda>f. findIndex (\<lambda>r. id' r = featureId f) rs \<noteq> - 1)
                  (filter (\<lambda>f. \<not> isOcrProposal f) allFeatures)
          in s\<lparr>imageMap := Some (fold removeFeature selectedFeatures allFeatures)\<rparr>)"

definition deleteRegions :: "js_env \<Rightarrow> IRegion list \<Rightarrow> ICanvasState \<Rightarrow> error + ICanvasState" where
  "deleteRegions env rs s =
     bindE (deleteRegionsFromAsset env rs (deleteRegionsFromSelectedRegionIds rs s)) (\<lambda>s2.
       Inr (deleteRegionsFromImageMap rs s2))"

definition onRegionDelete :: "js_env \<Rightarrow> string \<Rightarrow> ICanvasState \<Rightarrow> error + ICanvasState" where
  "onRegionDelete env regionId s =
     (let currentRegions = regions s;
          deletedRegionIndex = findIndex (\<lambda>r. id' r = regionId) currentRegions
      in updateAssetRegions env (splice1 deletedRegionIndex currentRegions) s)"

definition updateRegions :: "js_env \<Rightarrow> IRegion list \<Rightarrow> ICanvasState \<Rightarrow> error + ICanvasState" where
  "updateRegions env updates s =
     (let rs = regions s;
          updatedRegions =
            fold (\<lambda>u acc. if find (\<lambda>r. id' r = id' u) rs \<noteq> None then acc else acc @ [u]) updates rs
      in updateAssetRegions env (array_sort (compareRegionOrder (regionOrders s)) updatedRegions) s)"

definition showMultiPageFieldWarningIfNecessary ::
  "js_env \<Rightarrow> string \<Rightarrow> IRegion list \<Rightarrow> ICanvasState \<Rightarrow> bool \<times> ICanvasState" where
  "showMultiPageFieldWarningIfNecessary env tagName rs s =
     (let existedRegionsWithSameTag =
            filter (\<lambda>r. (case tags r of [] \<Rightarrow> [] | t # ts \<Rightarrow> t) = tagName) (regions s);
          regionsWithSameTag = existedRegionsWithSameTag @ rs;
          pageCount = length (uniq (map pageNumber regionsWithSameTag))
      in if 1 < pageCount
         then (True, s\<lparr>isError := True,
                        errorMessage := Some (''Sorry, we don't support cross-page regions with the same tag.'' @
                          '' You have regions with tag '' @ [CHR 0x22] @ tagName @ [CHR 0x22] @
                          '' across '' @ numToString env (Fin (of_nat pageCount)) @ '' pages.'')\<rparr>)
         else (False, s))"

text \<open>
  \<open>applyTag\<close> assigns the new tag list to each selected region, an object of the region
  list of the state, before \<open>updateRegions\<close> reads that list.
\<close>

definition applyTag :: "js_env \<Rightarrow> string \<Rightarrow> ICanvasState \<Rightarrow> error + ICanvasState" where
  "applyTag env tag s =
     (let selectedRegions = getSelectedRegions s
      in if tag = [] \<or> selectedRegions = [] then Inr s
         else (case showMultiPageFieldWarningIfNecessary env tag selectedRegions s of
                 (True, s') \<Rightarrow> Inr s'
               | (False, s') \<Rightarrow>
                   let s1 = s'\<lparr>regions := map (\<lambda>r. if isSelectedRegion s' r
                                                     then r\<lparr>tags := setSingleTag (tags r) tag\<rparr> else r)
                                              (regions s')\<rparr>
                   in bindE (updateRegions env (getSelectedRegions s1) s1) (\<lambda>s2.
                        let s3 = s2\<lparr>selectedRegionIds := []\<rparr>
                        in (case imageMap s3 of None \<Rightarrow> Inl TypeError | Some fs \<Rightarrow> Inr s3))))"

definition removeFromSelectedRegions :: "js_env \<Rightarrow> string \<Rightarrow> ICanvasState \<Rightarrow> error + ICanvasState" where
  "removeFromSelectedRegions env regionId s =
     (let iRegionId = getIndexOfSelectedRegionIds s regionId
      in if 0 \<le> iRegionId
         then let selected = getSelectedRegions s;
                  deleting = (nat iRegionId < length selected \<and> tags (selected ! nat iRegionId) = [])
              in bindE (if deleting then onRegionDelete env regionId s else Inr s) (\<lambda>s1.
                   Inr (s1\<lparr>selectedRegionIds := splice1 iRegionId (selectedRegionIds s1)\<rparr>))
         else Inr s)"

text \<open>
  For a region that is in the list already, \<open>addToSelectedRegions\<close> sets the page number of
  the first region with the id, in place.
\<close>

fun setPageNumberOfFirst :: "string \<Rightarrow> int \<Rightarrow> IRegion list \<Rightarrow> IRegion list" where
  "setPageNumberOfFirst regionId pg [] = []"
| "setPageNumberOfFirst regionId pg (r # rs) =
     (if id' r = regionId then r\<lparr>pageNumber := pg\<rparr> # rs
      else r # setPageNumberOfFirst regionId pg rs)"

definition addToSelectedRegions ::
  "js_env \<Rightarrow> string \<Rightarrow> string \<Rightarrow> jsnum list \<Rightarrow> ICanvasState \<Rightarrow> error + ICanvasState" where
  "addToSelectedRegions env regionId txt polygon s =
     (if isRegionSelected s regionId then Inr s
      else bindE
        (if getIndexOfCurrentRegions s regionId \<noteq> - 1
         then Inr (s\<lparr>regions := setPageNumberOfFirst regionId (currentPage s) (regions s)\<rparr>)
         else addRegions env
                [\<lparr> id' = regionId, type' = Polygon, tags = [],
                   boundingBox = convertToRegionBoundingBox polygon,
                   points = convertToRegionPoints polygon,
                   value' = txt, pageNumber = currentPage s \<rparr>] s)
        (\<lambda>s1. Inr (s1\<lparr>selectedRegionIds := selectedRegionIds s1 @ [regionId]\<rparr>)))"

definition handleFeatureSelect :: "js_env \<Rightarrow> feature \<Rightarrow> bool \<Rightarrow> ICanvasState \<Rightarrow> error + ICanvasState" where
  "handleFeatureSelect env f isToggle s =
     (let regionId = featureId f
      in bindE
        (if isToggle \<and> isRegionSelected s regionId then removeFromSelectedRegions env regionId s
         else addToSelectedRegions env regionId (featureText f) (parseRegionId env regionId) s)
        (\<lambda>s1. case imageMap s1 of None \<Rightarrow> Inl TypeError | Some fs \<Rightarrow> Inr s1))"


section \<open>Page navigation\<close>

definition getOcrResultForCurrentPage :: "ICanvasState \<Rightarrow> ocr_result option \<Rightarrow> ocr_for_page" where
  "getOcrResultForCurrentPage s ocrs =
     (case ocrs of None \<Rightarrow> OcrEmpty
      | Some r \<Rightarrow>
          if imageUri s = None \<or> imageUri s = Some [] then OcrEmpty
          else (case readResults r of None \<Rightarrow> OcrEmpty
                | Some rr \<Rightarrow>
                    if 1 \<le> currentPage s \<and> nat (currentPage s - 1) < length rr
                    then OcrOf (rr ! nat (currentPage s - 1))
                    else OcrUndefined))"

definition drawOcr :: "js_env \<Rightarrow> ICanvasState \<Rightarrow> error + ICanvasState" where
  "drawOcr env s =
     (case imageMap s of None \<Rightarrow> Inl TypeError
      | Some fs \<Rightarrow>
          (case ocrForCurrentPage s of
             OcrUndefined \<Rightarrow> Inl TypeError
           | OcrEmpty \<Rightarrow> Inr s
           | OcrOf p \<Rightarrow>
               let ocrExtent = (0, 0, ocrWidth p, ocrHeight p);
                   new = (case ocrLines p of None \<Rightarrow> []
                          | Some ls \<Rightarrow> concat (map (\<lambda>l.
                              case words l of None \<Rightarrow> []
                              | Some ws \<Rightarrow>
                                  map (\<lambda>w. createBoundingBoxVectorFeature env (wordText w)
                                            (wordBoundingBox w) (getImageExtent s) ocrExtent (ocrPage p))
                                    (filter (\<lambda>w. shouldDisplayOcrWord (wordText w)) ws)) ls))
               in if 0 < length new then Inr (s\<lparr>imageMap := Some (addFeatures fs new)\<rparr>) else Inr s))"

definition loadLabelData :: "js_env \<Rightarrow> IAsset \<Rightarrow> ICanvasState \<Rightarrow> error + ICanvasState" where
  "loadLabelData env a s =
     (case labelData s of
        None \<Rightarrow> Inr s
      | Some ld \<Rightarrow>
          if assetId a = assetId (asset s)
          then (let regionsFromLabelData = convertLabelDataToRegions env ld
                in if 0 < length regionsFromLabelData then addRegions env regionsFromLabelData s
                   else Inr s)
          else Inr s)"

text \<open>
  Modelled from the spec: the renderers of PDF and TIFF pages are not among the sources.
  The spec has the asset loader map a page number to the pixel content of the page with
  its width and height; the document is held as the list of its pages, and a page that the
  document does not have fails to load.
\<close>

definition loadPdfPage :: "page_image list \<Rightarrow> int \<Rightarrow> ICanvasState \<Rightarrow> error + ICanvasState" where
  "loadPdfPage pdf pgNumber s =
     (if 1 \<le> pgNumber \<and> nat (pgNumber - 1) < length pdf
      then (let img = pdf ! nat (pgNumber - 1)
            in Inr (s\<lparr>imageUri := Some (dataUrl img), imageWidth := pixelWidth img,
                      imageHeight := pixelHeight img, numPages := int (length pdf),
                      currentPage := pgNumber, pdfFile := Some pdf\<rparr>))
      else Inl RenderError)"

definition loadTiffPage :: "page_image list \<Rightarrow> int \<Rightarrow> ICanvasState \<Rightarrow> error + ICanvasState" where
  "loadTiffPage tiffs pgNumber s =
     (if 1 \<le> pgNumber \<and> nat (pgNumber - 1) < length tiffs
      then (let img = tiffs ! nat (pgNumber - 1)
            in Inr (s\<lparr>imageUri := Some (dataUrl img), imageWidth := pixelWidth img,
                      imageHeight := pixelHeight img, numPages := int (length tiffs),
                      currentPage := pgNumber, tiffImages := tiffs\<rparr>))
      else Inl TypeError)"

definition switchToTargetPage :: "int \<Rightarrow> ICanvasState \<Rightarrow> error + ICanvasState" where
  "switchToTargetPage targetPage s =
     (case pdfFile s of
        Some pdf \<Rightarrow> loadPdfPage pdf targetPage s
      | None \<Rightarrow> if tiffImages s \<noteq> [] then loadTiffPage (tiffImages s) targetPage s else Inr s)"

text \<open>
  \<open>goToPage\<close>. The test \<open>targetPage < 1 || targetPage > this.state.numPages\<close> guards an
  empty block (its only content is the comment "invalid page number, just return"), so the
  statements after it run for every target page.
\<close>

definition goToPage :: "js_env \<Rightarrow> int \<Rightarrow> ICanvasState \<Rightarrow> error + ICanvasState" where
  "goToPage env targetPage s =
     (let selectedRegions = getSelectedRegions s;
          s1 = deleteRegionsFromSelectedRegionIds selectedRegions s;
          selectedRegionsWithoutTag = filter (\<lambda>r. length (tags r) = 0) selectedRegions
      in bindE (deleteRegionsFromAsset env selectedRegionsWithoutTag s1) (\<lambda>s2.
         bindE (switchToTargetPage targetPage (deleteRegionsFromImageMap selectedRegionsWithoutTag s2)) (\<lambda>s3.
           let s4 = s3\<lparr>ocrForCurrentPage := getOcrResultForCurrentPage s3 (ocr s3)\<rparr>
           in (case imageMap s4 of None \<Rightarrow> Inl TypeError
               | Some fs \<Rightarrow>
                   bindE (drawOcr env (s4\<lparr>imageMap := Some []\<rparr>)) (\<lambda>s5.
                     loadLabelData env (asset s5) s5)))))"

definition nextPage :: "js_env \<Rightarrow> ICanvasState \<Rightarrow> error + ICanvasState" where
  "nextPage env s =
     (if (pdfFile s \<noteq> None \<or> length (tiffImages s) \<noteq> 0) \<and> currentPage s < numPages s
      then goToPage env (currentPage s + 1) s else Inr s)"

definition prevPage :: "js_env \<Rightarrow> ICanvasState \<Rightarrow> error + ICanvasState" where
  "prevPage env s =
     (if (pdfFile s \<noteq> None \<or> length (tiffImages s) \<noteq> 0) \<and> 1 < currentPage s
      then goToPage env (currentPage s - 1) s else Inr s)"

section \<open>Observations used in the statements\<close>

text \<open>The words of a page in the order of traversal, lines first, then the words of a line.\<close>

definition lineWordList :: "ocr_line \<Rightarrow> ocr_word list" where
  "lineWordList l = (case words l of None \<Rightarrow> [] | Some ws \<Rightarrow> ws)"

definition pageWordList :: "ocr_page \<Rightarrow> ocr_word list" where
  "pageWordList p = (case ocrLines p of None \<Rightarrow> [] | Some ls \<Rightarrow> concat (map lineWordList ls))"

text \<open>The region ids of the words of a list that pass the display filter, in their order.\<close>

definition wordIds :: "js_env \<Rightarrow> extent \<Rightarrow> extent \<Rightarrow> int \<Rightarrow> ocr_word list \<Rightarrow> string list" where
  "wordIds env imgExtent ocrExtent pg ws =
     map (\<lambda>w. featureId (createBoundingBoxVectorFeature env (wordText w) (wordBoundingBox w)
                  imgExtent ocrExtent pg))
       (filter (\<lambda>w. shouldDisplayOcrWord (wordText w)) ws)"

definition displayedWordIds :: "js_env \<Rightarrow> extent \<Rightarrow> ocr_page \<Rightarrow> string list" where
  "displayedWordIds env imgExtent p =
     wordIds env imgExtent (0, 0, ocrWidth p, ocrHeight p) (ocrPage p) (pageWordList p)"

text \<open>Giving the keys of a list the ranks \<open>n\<close>, \<open>n + 1\<close>, ... in turn, a later rank replacing an earlier.\<close>

fun rank_from :: "nat \<Rightarrow> string list \<Rightarrow> (string \<rightharpoonup> nat) \<Rightarrow> (string \<rightharpoonup> nat)" where
  "rank_from n [] m = m"
| "rank_from n (k # ks) m = rank_from (Suc n) ks (m(k \<mapsto> n))"

text \<open>
  The content of label data: for each bounding box, in the order of the labels, of their
  values and of the boxes of a value, the field name, the page and the coordinates.
\<close>

definition formRegionEntries :: "string \<Rightarrow> IFormRegion \<Rightarrow> (string \<times> int \<times> jsnum list) list" where
  "formRegionEntries fieldName v =
     (case boundingBoxes v of None \<Rightarrow> [] | Some bbs \<Rightarrow> map (\<lambda>bbox. (fieldName, page v, bbox)) bbs)"

definition labelEntries :: "ILabel \<Rightarrow> (string \<times> int \<times> jsnum list) list" where
  "labelEntries lb =
     (case labelValue lb of None \<Rightarrow> [] | Some vs \<Rightarrow> concat (map (formRegionEntries (label lb)) vs))"

definition labelDataEntries :: "ILabelData \<Rightarrow> (string \<times> int \<times> jsnum list) list" where
  "labelDataEntries ld = (case labels ld of None \<Rightarrow> [] | Some ls \<Rightarrow> concat (map labelEntries ls))"

definition fieldNames :: "ILabelData \<Rightarrow> string list" where
  "fieldNames ld = (case labels ld of None \<Rightarrow> [] | Some ls \<Rightarrow> map label ls)"

text \<open>
  What the round trip through a region id needs of the number primitives for a box on a
  page: no text of a number has a comma, and the text of each coordinate parses back to the
  coordinate, also where the colon and the page follow it.
\<close>

definition roundTrips :: "js_env \<Rightarrow> jsnum list \<Rightarrow> int \<Rightarrow> bool" where
  "roundTrips env bbox pg =
     ((\<forall>x\<in>set bbox. CHR '','' \<notin> set (numToString env x) \<and> parseFloat env (numToString env x) = x) \<and>
      CHR '','' \<notin> set (numToString env (Fin (of_int pg))) \<and>
      parseFloat env (numToString env (last bbox) @ '':'' @ numToString env (Fin (of_int pg))) = last bbox)"

text \<open>The OCR proposals among the features of the map.\<close>

definition ocrProposals :: "ICanvasState \<Rightarrow> feature list" where
  "ocrProposals s = (case imageMap s of None \<Rightarrow> [] | Some fs \<Rightarrow> filter isOcrProposal fs)"

text \<open>
  The regions whose first tag is the given one, followed by the selected regions: the
  regions of which \<open>showMultiPageFieldWarningIfNecessary\<close> counts the pages.
\<close>

definition taggedOrSelected :: "string \<Rightarrow> ICanvasState \<Rightarrow> IRegion list" where
  "taggedOrSelected tag s = filter (\<lambda>r. firstTag r = Some tag) (regions s) @ getSelectedRegions s"

text \<open>The message of the cross-page warning for a tag and a number of pages.\<close>

definition crossPageMessage :: "js_env \<Rightarrow> string \<Rightarrow> nat \<Rightarrow> string" where
  "crossPageMessage env tag n =
     ''Sorry, we don't support cross-page regions with the same tag. You have regions with tag '' @
     [CHR 0x22] @ tag @ [CHR 0x22] @ '' across '' @ numToString env (Fin (of_nat n)) @ '' pages.''"

text \<open>
  A region with the tag applied when it is selected, and the sorted region list of the
  state with the tag applied.
\<close>

definition retag :: "ICanvasState \<Rightarrow> string \<Rightarrow> IRegion \<Rightarrow> IRegion" where
  "retag s tag r = (if isSelectedRegion s r then r\<lparr>tags := [tag]\<rparr> else r)"

definition retagged :: "string \<Rightarrow> ICanvasState \<Rightarrow> IRegion list" where
  "retagged tag s = array_sort (compareRegionOrder (regionOrders s)) (map (retag s tag) (regions s))"

text \<open>What the mapper reads of a region: its tags, its page and its id.\<close>

definition regionKey :: "IRegion \<Rightarrow> string list \<times> int \<times> string" where
  "regionKey r = (tags r, pageNumber r, id' r)"

text \<open>The same of an entry of label data, once \<open>createRegion\<close> has made a region of it.\<close>

definition entryKey :: "js_env \<Rightarrow> string \<times> int \<times> jsnum list \<Rightarrow> string list \<times> int \<times> string" where
  "entryKey env e = (case e of (f, pg, bbox) \<Rightarrow> ([f], pg, createRegionIdFromBoundingBox env bbox pg))"

section \<open>An instance of the primitives for plain decimal notation\<close>

text \<open>
  To run the model on concrete inputs: numbers are written in plain decimal notation, as
  the language writes an integer or a short decimal fraction, with at most 17 digits after
  the point; \<open>parseFloat\<close> reads the longest prefix in that notation (no exponent, no
  leading blanks); \<open>decodeURIComponent\<close> is the identity, as it is on a name without
  escape sequences.
\<close>

definition digit_char :: "nat \<Rightarrow> char" where
  "digit_char d = ''0123456789'' ! d"

fun nat_digits :: "nat \<Rightarrow> string" where
  "nat_digits n = (if n < 10 then [digit_char n] else nat_digits (n div 10) @ [digit_char (n mod 10)])"

declare nat_digits.simps [simp del]

fun frac_digits :: "nat \<Rightarrow> rat \<Rightarrow> string" where
  "frac_digits 0 r = []"
| "frac_digits (Suc k) r =
     (if r = 0 then []
      else digit_char (nat \<lfloor>r * 10\<rfloor>) # frac_digits k (r * 10 - of_int \<lfloor>r * 10\<rfloor>))"

definition decimal_string :: "jsnum \<Rightarrow> string" where
  "decimal_string x =
     (case x of
        NaN \<Rightarrow> ''NaN''
      | PInf \<Rightarrow> ''Infinity''
      | NInf \<Rightarrow> ''-Infinity''
      | Fin q \<Rightarrow>
          (if q < 0 then ''-'' else []) @ nat_digits (nat \<lfloor>\<bar>q\<bar>\<rfloor>) @
          (if \<bar>q\<bar> = of_int \<lfloor>\<bar>q\<bar>\<rfloor> then []
           else ''.'' @ frac_digits 17 (\<bar>q\<bar> - of_int \<lfloor>\<bar>q\<bar>\<rfloor>)))"

definition is_digit :: "char \<Rightarrow> bool" where
  "is_digit c = (c \<in> set ''0123456789'')"

definition digit_value :: "char \<Rightarrow> nat" where
  "digit_value c = length (takeWhile (\<lambda>d. d \<noteq> c) ''0123456789'')"

definition digits_value :: "string \<Rightarrow> nat" where
  "digits_value ds = foldl (\<lambda>a c. 10 * a + digit_value c) 0 ds"

definition decimal_magnitude :: "string \<Rightarrow> jsnum" where
  "decimal_magnitude s =
     (let ip = takeWhile is_digit s;
          rest = dropWhile is_digit s;
          fp = (case rest of [] \<Rightarrow> []
                | c # r \<Rightarrow> if c = CHR ''.'' then takeWhile is_digit r else [])
      in if ip = [] \<and> fp = [] then (if take 8 s = ''Infinity'' then PInf else NaN)
         else Fin (of_nat (digits_value ip) + of_nat (digits_value fp) / 10 ^ length fp))"

definition decimal_parse :: "string \<Rightarrow> jsnum" where
  "decimal_parse s =
     (case s of [] \<Rightarrow> NaN
      | c # r \<Rightarrow>
          if c = CHR ''-''
          then (case decimal_magnitude r of Fin q \<Rightarrow> Fin (- q) | PInf \<Rightarrow> NInf | y \<Rightarrow> y)
          else if c = CHR ''+'' then decimal_magnitude r
          else decimal_magnitude s)"

definition decimal_js :: js_env where
  "decimal_js = \<lparr> numToString = decimal_string, parseFloat = decimal_parse,
                  decodeURIComponent = Some \<rparr>"

section \<open>Example data\<close>

text \<open>
  A page of an invoice, 100 by 200 in the OCR space and drawn 1000 by 2000: one line with
  a form blank and the words "Paid" and "$10".
\<close>

definition blank_word :: ocr_word where
  "blank_word = \<lparr> wordText = ''___'', wordBoundingBox = [10, 10, 40, 10, 40, 18, 10, 18] \<rparr>"

definition paid_word :: ocr_word where
  "paid_word = \<lparr> wordText = ''Paid'', wordBoundingBox = [10, 20, 50, 20, 50, 40, 10, 40] \<rparr>"

definition amount_word :: ocr_word where
  "amount_word = \<lparr> wordText = ''$10'', wordBoundingBox = [60, 20, 90, 20, 90, 40, 60, 40] \<rparr>"

definition example_page :: ocr_page where
  "example_page = \<lparr> ocrPage = 1, ocrWidth = 100, ocrHeight = 200,
                    ocrLines = Some [\<lparr> words = Some [blank_word, paid_word, amount_word] \<rparr>] \<rparr>"

definition example_extent :: extent where
  "example_extent = (0, 0, 1000, 2000)"

definition paid_box :: "jsnum list" where
  "paid_box = [Fin (1 / 10), Fin (1 / 10), Fin (1 / 2), Fin (1 / 10), Fin (1 / 2), Fin (1 / 5), Fin (1 / 10), Fin (1 / 5)]"

definition amount_box :: "jsnum list" where
  "amount_box = [Fin (3 / 5), Fin (1 / 10), Fin (9 / 10), Fin (1 / 10), Fin (9 / 10), Fin (1 / 5), Fin (3 / 5), Fin (1 / 5)]"

definition total_region :: IRegion where
  "total_region = createRegion decimal_js amount_box ''$10'' ''Total'' 1"

definition untagged_region :: "jsnum list \<Rightarrow> string \<Rightarrow> int \<Rightarrow> IRegion" where
  "untagged_region polygon txt pg =
     \<lparr> id' = createRegionIdFromBoundingBox decimal_js polygon pg, type' = Polygon, tags = [],
       boundingBox = convertToRegionBoundingBox polygon, points = convertToRegionPoints polygon,
       value' = txt, pageNumber = pg \<rparr>"

definition example_state :: ICanvasState where
  "example_state =
     \<lparr> asset = \<lparr> assetId = ''invoice'', assetName = ''invoice.png'' \<rparr>,
       regions = [], labelData = None, imageUri = Some ''data:image/jpeg'',
       imageWidth = 1000, imageHeight = 2000, numPages = 1, currentPage = 1,
       ocr = Some \<lparr> recognitionResults = None, readResults = Some [example_page] \<rparr>,
       ocrForCurrentPage = OcrOf example_page, pdfFile = None, tiffImages = [],
       isError = False, errorTitle = None, errorMessage = None,
       imageMap = Some [], selectedRegionIds = [], regionOrders = [] \<rparr>"

text \<open>
  The example of the spec: a region tagged "Total" on page 1 and a newly selected region on
  page 2.
\<close>

definition cross_page_state :: ICanvasState where
  "cross_page_state =
     example_state\<lparr>regions := [total_region, untagged_region paid_box ''$25'' 2],
                    selectedRegionIds := [id' (untagged_region paid_box ''$25'' 2)],
                    numPages := 2, currentPage := 2\<rparr>"

definition paid_feature :: feature where
  "paid_feature = createBoundingBoxVectorFeature decimal_js (wordText paid_word)
                    (wordBoundingBox paid_word) example_extent (0, 0, 100, 200) 1"

definition amount_feature :: feature where
  "amount_feature = createBoundingBoxVectorFeature decimal_js (wordText amount_word)
                      (wordBoundingBox amount_word) example_extent (0, 0, 100, 200) 1"

definition blank_feature :: feature where
  "blank_feature = createBoundingBoxVectorFeature decimal_js (wordText blank_word)
                      (wordBoundingBox blank_word) example_extent (0, 0, 100, 200) 1"

definition example_orders :: "(string \<rightharpoonup> nat) option list" where
  "example_orders = [Some (orderPage decimal_js example_extent example_page)]"

text \<open>
  The state once the page is loaded: the OCR proposals are drawn and the index is built.
\<close>

definition drawn_state :: ICanvasState where
  "drawn_state =
     example_state\<lparr>imageMap := Some [paid_feature, amount_feature],
                    regionOrders := example_orders\<rparr>"

text \<open>
  The same with label data that has the field "Total" for "$10", once the label data is
  loaded.
\<close>

definition total_label_data :: ILabelData where
  "total_label_data =
     \<lparr> document = ''invoice.png'',
       labels = Some [\<lparr> label = ''Total'', key = None,
                        labelValue = Some [\<lparr> page = 1, text' = ''$10'', boundingBoxes = Some [amount_box] \<rparr>] \<rparr>] \<rparr>"

definition tagged_state :: ICanvasState where
  "tagged_state = drawn_state\<lparr>regions := [total_region], labelData := Some total_label_data\<rparr>"

text \<open>"Paid" has been selected as well, which made an untagged region of it.\<close>

definition same_page_state :: ICanvasState where
  "same_page_state =
     drawn_state\<lparr>regions := [total_region, untagged_region paid_box ''Paid'' 1],
                  selectedRegionIds := [id' (untagged_region paid_box ''Paid'' 1)]\<rparr>"

text \<open>
  A region of the label data that is no word of the page, with its own feature on the
  map, selected.
\<close>

definition other_box :: "jsnum list" where
  "other_box = [Fin (3 / 10), Fin (3 / 10), Fin (2 / 5), Fin (3 / 10), Fin (2 / 5), Fin (2 / 5), Fin (3 / 10), Fin (2 / 5)]"

definition labelled_region :: IRegion where
  "labelled_region = createRegion decimal_js other_box ''Due'' ''Status'' 1"

definition labelled_state :: ICanvasState where
  "labelled_state =
     drawn_state\<lparr>regions := [labelled_region],
                  imageMap := Some [paid_feature, amount_feature,
                                    convertRegionToFeature decimal_js labelled_region example_extent False],
                  selectedRegionIds := [id' labelled_region]\<rparr>"

definition two_pages :: "page_image list" where
  "two_pages = [\<lparr> dataUrl = ''data:image/jpeg'', pixelWidth = 1000, pixelHeight = 2000 \<rparr>,
                \<lparr> dataUrl = ''data:image/jpeg'', pixelWidth = 1000, pixelHeight = 2000 \<rparr>]"

definition empty_label_data :: ILabelData where
  "empty_label_data =
     \<lparr> document = ''invoice.png'',
       labels = Some [\<lparr> label = ''Total'', key = None, labelValue = Some [] \<rparr>] \<rparr>"

definition example_label_data :: ILabelData where
  "example_label_data =
     \<lparr> document = ''invoice.png'',
       labels = Some [\<lparr> label = ''Total'', key = None,
                        labelValue = Some [\<lparr> page = 1, text' = ''$10'', boundingBoxes = Some [amount_box] \<rparr>] \<rparr>,
                      \<lparr> label = ''Status'', key = None,
                        labelValue = Some [\<lparr> page = 1, text' = ''Paid'', boundingBoxes = Some [paid_box] \<rparr>] \<rparr>] \<rparr>"

section \<open>Strings and region identity\<close>

lemma split_on_no_sep: "c \<notin> set t \<Longrightarrow> split_on c t = [t]"
  by (induction t) auto

lemma split_on_append_sep:
  "c \<notin> set t \<Longrightarrow> split_on c (t @ c # rest) = t # split_on c rest"
  by (induction t) auto

lemma split_on_join_suffix:
  "ts \<noteq> [] \<Longrightarrow> \<forall>t\<in>set ts. c \<notin> set t \<Longrightarrow> c \<notin> set suffix \<Longrightarrow>
   split_on c (join_with [c] ts @ suffix) = butlast ts @ [last ts @ suffix]"
proof (induction "[c]" ts rule: join_with.induct)
  case 1
  then show ?case by simp
next
  case (2 t)
  then show ?case by (simp add: split_on_no_sep)
next
  case (3 t u ts)
  then show ?case by (simp add: split_on_append_sep)
qed

lemma parseRegionId_create:
  assumes "xs \<noteq> []"
    and "\<forall>x\<in>set xs. CHR '','' \<notin> set (numToString env x)"
    and "CHR '','' \<notin> set (numToString env (Fin (of_int pg)))"
  shows "parseRegionId env (createRegionIdFromBoundingBox env xs pg) =
         map (\<lambda>x. parseFloat env (numToString env x)) (butlast xs) @
         [parseFloat env (numToString env (last xs) @ '':'' @ numToString env (Fin (of_int pg)))]"
proof -
  have "split_on CHR '','' (join_with '','' (map (numToString env) xs) @ ('':'' @ numToString env (Fin (of_int pg))))
        = butlast (map (numToString env) xs) @ [last (map (numToString env) xs) @ ('':'' @ numToString env (Fin (of_int pg)))]"
    using assms by (intro split_on_join_suffix) auto
  then show ?thesis
    using assms(1)
    by (simp add: parseRegionId_def createRegionIdFromBoundingBox_def map_butlast last_map comp_def)
qed

lemma parseRegionId_roundTrips:
  assumes "xs \<noteq> []" and "roundTrips env xs pg"
  shows "parseRegionId env (createRegionIdFromBoundingBox env xs pg) = xs"
proof -
  have "map (\<lambda>x. parseFloat env (numToString env x)) (butlast xs) = butlast xs"
    using assms(2) by (intro map_idI) (auto simp: roundTrips_def dest: in_set_butlastD)
  moreover have "parseRegionId env (createRegionIdFromBoundingBox env xs pg) =
         map (\<lambda>x. parseFloat env (numToString env x)) (butlast xs) @
         [parseFloat env (numToString env (last xs) @ '':'' @ numToString env (Fin (of_int pg)))]"
    using assms by (intro parseRegionId_create) (auto simp: roundTrips_def)
  ultimately show ?thesis
    using assms by (simp add: roundTrips_def)
qed

section \<open>Coordinate transform\<close>



section \<open>Region order index\<close>

lemma findRegionOrder_absent:
  "\<forall>m. Some m \<in> set ros \<longrightarrow> m rid = None \<Longrightarrow> findRegionOrder ros rid k = None"
  by (induction ros rid k rule: findRegionOrder.induct) auto

lemma findRegionOrder_first:
  "i < length ros \<Longrightarrow> ros ! i = Some m \<Longrightarrow> m rid = Some order \<Longrightarrow>
   \<forall>j<i. \<forall>mj. ros ! j = Some mj \<longrightarrow> mj rid = None \<Longrightarrow>
   findRegionOrder ros rid k = Some (int (k + i) + 1, order)"
proof (induction ros rid k arbitrary: i rule: findRegionOrder.induct)
  case (1 regionId pageIndex)
  then show ?case by simp
next
  case (2 ros regionId pageIndex)
  then obtain i' where i': "i = Suc i'" by (cases i) auto
  with 2 have "findRegionOrder ros regionId (pageIndex + 1) = Some (int (pageIndex + 1 + i') + 1, order)"
    by (intro "2.IH") auto
  then show ?case using i' by simp
next
  case (3 m' ros regionId pageIndex)
  show ?case
  proof (cases i)
    case 0
    with 3 show ?thesis by simp
  next
    case (Suc i')
    with 3 have none: "m' regionId = None" by auto
    from 3 Suc have "findRegionOrder ros regionId (pageIndex + 1) = Some (int (pageIndex + 1 + i') + 1, order)"
      by (intro "3.IH") (auto simp: none)
    then show ?thesis using Suc none by simp
  qed
qed

lemma rank_from_append:
  "rank_from n (ks @ ls) m = rank_from (n + length ks) ls (rank_from n ks m)"
  by (induction ks arbitrary: n m) auto

lemma dom_rank_from: "dom (rank_from n ks m) = dom m \<union> set ks"
  by (induction ks arbitrary: n m) auto

lemma rank_from_notin: "k \<notin> set ks \<Longrightarrow> rank_from n ks m k = m k"
  by (induction ks arbitrary: n m) auto

lemma rank_from_last_occurrence:
  "i < length ks \<Longrightarrow> \<forall>j. i < j \<and> j < length ks \<longrightarrow> ks ! j \<noteq> ks ! i \<Longrightarrow>
   rank_from n ks m (ks ! i) = Some (n + i)"
proof (induction ks arbitrary: n m i)
  case Nil
  then show ?case by simp
next
  case (Cons k ks)
  show ?case
  proof (cases i)
    case 0
    have "k \<notin> set ks"
    proof
      assume "k \<in> set ks"
      then obtain j where "j < length ks" "ks ! j = k" by (auto simp: in_set_conv_nth)
      with Cons.prems(2) [rule_format, of "Suc j"] 0 show False by simp
    qed
    with 0 show ?thesis by (simp add: rank_from_notin)
  next
    case (Suc i')
    have "\<forall>j. i' < j \<and> j < length ks \<longrightarrow> ks ! j \<noteq> ks ! i'"
    proof (intro allI impI)
      fix j assume "i' < j \<and> j < length ks"
      with Cons.prems(2) [rule_format, of "Suc j"] Suc show "ks ! j \<noteq> ks ! i'" by simp
    qed
    with Cons.prems(1) Suc have "rank_from (Suc n) ks (m(k \<mapsto> n)) (ks ! i') = Some (Suc n + i')"
      by (intro Cons.IH) auto
    with Suc show ?thesis by simp
  qed
qed

lemma fold_orderWord:
  "fold (orderWord env ie oe pg) ws (m, n) =
     (rank_from n (wordIds env ie oe pg ws) m, n + length (wordIds env ie oe pg ws))"
  by (induction ws arbitrary: m n) (auto simp: orderWord_def wordIds_def)

lemma wordIds_append:
  "wordIds env ie oe pg (a @ b) = wordIds env ie oe pg a @ wordIds env ie oe pg b"
  by (simp add: wordIds_def)

lemma orderLine_step:
  "orderLine env ie oe pg l (m, n) =
     (rank_from n (wordIds env ie oe pg (lineWordList l)) m,
      n + length (wordIds env ie oe pg (lineWordList l)))"
  by (cases "words l") (simp_all add: orderLine_def lineWordList_def fold_orderWord wordIds_def)

lemma fold_orderLine:
  "fold (orderLine env ie oe pg) ls (m, n) =
     (rank_from n (wordIds env ie oe pg (concat (map lineWordList ls))) m,
      n + length (wordIds env ie oe pg (concat (map lineWordList ls))))"
proof (induction ls arbitrary: m n)
  case Nil
  then show ?case by (simp add: wordIds_def)
next
  case (Cons l ls)
  show ?case
    by (simp add: orderLine_step Cons.IH wordIds_append rank_from_append add.assoc)
qed

lemma orderPage_rank_from:
  "orderPage env ie p = rank_from 0 (displayedWordIds env ie p) Map.empty"
proof (cases "ocrLines p")
  case None
  then show ?thesis
    by (simp add: orderPage_def displayedWordIds_def pageWordList_def wordIds_def)
next
  case (Some ls)
  then show ?thesis
    by (simp add: orderPage_def displayedWordIds_def pageWordList_def fold_orderLine)
qed

lemma match_underscores_iff: "match_underscores t \<longleftrightarrow> t \<noteq> [] \<and> set t \<subseteq> {CHR ''_''}"
  by (induction t rule: match_underscores.induct) auto

lemma length_array_set: "length xs \<le> length (array_set xs i v)"
  by (simp add: array_set_def)

lemma array_set_same: "0 \<le> i \<Longrightarrow> nat i < length (array_set xs i v) \<and> array_set xs i v ! nat i = Some v"
  by (auto simp: array_set_def nth_append)

lemma array_set_other:
  "0 \<le> j \<Longrightarrow> i \<noteq> j \<Longrightarrow> nat j < length xs \<Longrightarrow> array_set xs i v ! nat j = xs ! nat j"
  by (auto simp: array_set_def nth_append)

lemma fold_array_set_keeps:
  "0 \<le> j \<Longrightarrow> nat j < length ros \<Longrightarrow> \<forall>q\<in>set ps. ocrPage q - 1 \<noteq> j \<Longrightarrow>
   nat j < length (fold (\<lambda>p ros. array_set ros (ocrPage p - 1) (f p)) ps ros) \<and>
   fold (\<lambda>p ros. array_set ros (ocrPage p - 1) (f p)) ps ros ! nat j = ros ! nat j"
proof (induction ps arbitrary: ros)
  case Nil
  then show ?case by simp
next
  case (Cons p ps)
  have len: "nat j < length (array_set ros (ocrPage p - 1) (f p))"
    using Cons.prems(2) length_array_set [of ros "ocrPage p - 1" "f p"] by linarith
  have "array_set ros (ocrPage p - 1) (f p) ! nat j = ros ! nat j"
    using Cons.prems by (intro array_set_other) auto
  with Cons.IH [OF Cons.prems(1) len] Cons.prems(3) show ?case by simp
qed

lemma fold_array_set_last:
  "ps = before @ p # after \<Longrightarrow> 1 \<le> ocrPage p \<Longrightarrow> \<forall>q\<in>set after. ocrPage q \<noteq> ocrPage p \<Longrightarrow>
   fold (\<lambda>p ros. array_set ros (ocrPage p - 1) (f p)) ps ros ! nat (ocrPage p - 1) = Some (f p)"
  using fold_array_set_keeps [of "ocrPage p - 1" "array_set (fold (\<lambda>p ros. array_set ros (ocrPage p - 1) (f p)) before ros) (ocrPage p - 1) (f p)" after f]
    array_set_same [of "ocrPage p - 1" "fold (\<lambda>p ros. array_set ros (ocrPage p - 1) (f p)) before ros" "f p"]
  by auto

section \<open>Sets and sorting\<close>

lemma uniq_from_set: "set (uniq_from seen xs) = set xs - set seen"
  by (induction seen xs rule: uniq_from.induct) auto

lemma uniq_from_distinct: "distinct (uniq_from seen xs)"
  by (induction seen xs rule: uniq_from.induct) (auto simp: uniq_from_set)

lemma set_uniq: "set (uniq xs) = set xs"
  by (simp add: uniq_def uniq_from_set)

lemma distinct_uniq: "distinct (uniq xs)"
  by (simp add: uniq_def uniq_from_distinct)

lemma length_uniq: "length (uniq xs) = card (set xs)"
  using distinct_card [OF distinct_uniq, of xs] by (simp add: set_uniq)

(* sorting *)







section \<open>Deleting regions\<close>

lemma filter_remove1_other: "\<not> P f \<Longrightarrow> filter P (remove1 f fs) = filter P fs"
  by (induction fs) auto

lemma filter_fold_removeFeature:
  "\<forall>f\<in>set sel. \<not> P f \<Longrightarrow> filter P (fold removeFeature sel fs) = filter P fs"
  by (induction sel arbitrary: fs) (simp_all add: removeFeature_def filter_remove1_other)

lemma set_fold_removeFeature: "set (fold removeFeature sel fs) \<subseteq> set fs"
proof (induction sel arbitrary: fs)
  case Nil
  then show ?case by simp
next
  case (Cons f sel)
  have "set (fold removeFeature sel (removeFeature f fs)) \<subseteq> set (removeFeature f fs)"
    by (rule Cons.IH)
  also have "\<dots> \<subseteq> set fs"
    unfolding removeFeature_def by (rule set_remove1_subset)
  finally show ?case by simp
qed

lemma ocrProposals_deleteRegionsFromImageMap:
  "ocrProposals (deleteRegionsFromImageMap rs s) = ocrProposals s"
  by (cases "imageMap s")
     (simp_all add: ocrProposals_def deleteRegionsFromImageMap_def Let_def filter_fold_removeFeature)

lemma imageMap_updateAssetRegions:
  "updateAssetRegions env rs s = Inr s' \<Longrightarrow> imageMap s' = imageMap s"
  by (auto simp: updateAssetRegions_def split: sum.splits)

lemma imageMap_deleteRegionsFromSelectedRegionIds:
  "imageMap (deleteRegionsFromSelectedRegionIds rs s) = imageMap s"
  by (simp add: deleteRegionsFromSelectedRegionIds_def)

lemma ocrProposals_cong: "imageMap s' = imageMap s \<Longrightarrow> ocrProposals s' = ocrProposals s"
  by (simp add: ocrProposals_def)

lemma ocrProposals_deleteRegions:
  assumes "deleteRegions env rs s = Inr s'"
  shows "ocrProposals s' = ocrProposals s"
proof -
  from assms obtain s2 where
    s2: "deleteRegionsFromAsset env rs (deleteRegionsFromSelectedRegionIds rs s) = Inr s2"
    and s': "s' = deleteRegionsFromImageMap rs s2"
    by (auto simp: deleteRegions_def bindE_def split: sum.splits)
  from s2 have "imageMap s2 = imageMap s"
    by (auto simp: deleteRegionsFromAsset_def Let_def imageMap_deleteRegionsFromSelectedRegionIds
        dest!: imageMap_updateAssetRegions)
  then have "ocrProposals s2 = ocrProposals s"
    by (rule ocrProposals_cong)
  then show ?thesis
    by (simp add: s' ocrProposals_deleteRegionsFromImageMap)
qed

lemma removed_features_not_ocr:
  assumes "imageMap s = Some fs" and "imageMap (deleteRegionsFromImageMap rs s) = Some fs'"
  shows "set fs' \<subseteq> set fs \<and> (\<forall>f\<in>set fs. isOcrProposal f \<longrightarrow> f \<in> set fs')"
proof -
  have eq: "filter isOcrProposal fs' = filter isOcrProposal fs"
    using ocrProposals_deleteRegionsFromImageMap [of rs s] assms by (simp add: ocrProposals_def)
  have "fs' = fold removeFeature
                 (filter (\<lambda>f. findIndex (\<lambda>r. id' r = featureId f) rs \<noteq> - 1)
                    (filter (\<lambda>f. \<not> isOcrProposal f) fs)) fs"
    using assms by (simp add: deleteRegionsFromImageMap_def Let_def)
  then have "set fs' \<subseteq> set fs"
    using set_fold_removeFeature by simp
  moreover have "\<forall>f\<in>set fs. isOcrProposal f \<longrightarrow> f \<in> set fs'"
  proof (intro ballI impI)
    fix f assume "f \<in> set fs" "isOcrProposal f"
    then have "f \<in> set (filter isOcrProposal fs)" by simp
    with eq have "f \<in> set (filter isOcrProposal fs')" by simp
    then show "f \<in> set fs'" by simp
  qed
  ultimately show ?thesis by simp
qed

section \<open>Applying a tag\<close>

lemma first_tag_eq: "tag \<noteq> [] \<Longrightarrow> ((case tags r of [] \<Rightarrow> [] | t # ts \<Rightarrow> t) = tag) = (firstTag r = Some tag)"
  by (cases "tags r") (auto simp: firstTag_def)

lemma filter_first_tag:
  "tag \<noteq> [] \<Longrightarrow> filter (\<lambda>r. (case tags r of [] \<Rightarrow> [] | t # ts \<Rightarrow> t) = tag) rs
     = filter (\<lambda>r. firstTag r = Some tag) rs"
  by (rule filter_cong) (simp_all add: first_tag_eq)

lemma showMultiPage_eq:
  assumes "tag \<noteq> []"
  shows "showMultiPageFieldWarningIfNecessary env tag (getSelectedRegions s) s =
     (if 1 < card (pageNumber ` set (taggedOrSelected tag s))
      then (True, s\<lparr>isError := True,
                    errorMessage := Some (crossPageMessage env tag (card (pageNumber ` set (taggedOrSelected tag s))))\<rparr>)
      else (False, s))"
proof -
  have "length (uniq (map pageNumber (filter (\<lambda>r. firstTag r = Some tag) (regions s) @ getSelectedRegions s)))
        = card (pageNumber ` set (taggedOrSelected tag s))"
    by (simp add: length_uniq taggedOrSelected_def image_Un)
  then show ?thesis
    unfolding showMultiPageFieldWarningIfNecessary_def Let_def filter_first_tag [OF assms]
    by (simp add: crossPageMessage_def)
qed

lemma fold_skip_found:
  "\<forall>u\<in>set updates. find (\<lambda>r. id' r = id' u) rs \<noteq> None \<Longrightarrow>
   fold (\<lambda>u acc. if find (\<lambda>r. id' r = id' u) rs \<noteq> None then acc else acc @ [u]) updates acc = acc"
  by (induction updates arbitrary: acc) auto

lemma updateRegions_of_present:
  assumes "set updates \<subseteq> set (regions s)"
  shows "updateRegions env updates s =
         updateAssetRegions env (array_sort (compareRegionOrder (regionOrders s)) (regions s)) s"
proof -
  have "\<forall>u\<in>set updates. find (\<lambda>r. id' r = id' u) (regions s) \<noteq> None"
    using assms by (auto simp: find_None_iff)
  then have "fold (\<lambda>u acc. if find (\<lambda>r. id' r = id' u) (regions s) \<noteq> None then acc else acc @ [u])
               updates (regions s) = regions s"
    by (rule fold_skip_found)
  then show ?thesis
    unfolding updateRegions_def Let_def by (simp only:)
qed

lemma isSelectedRegion_cong:
  "selectedRegionIds s' = selectedRegionIds s \<Longrightarrow> isSelectedRegion s' r = isSelectedRegion s r"
  by (simp add: isSelectedRegion_def)

lemma isSelectedRegion_tags [simp]: "isSelectedRegion s (r\<lparr>tags := ts\<rparr>) = isSelectedRegion s r"
  by (simp add: isSelectedRegion_def)

lemma isSelectedRegion_retag [simp]: "isSelectedRegion s (retag s' tag r) = isSelectedRegion s r"
  by (simp add: retag_def)

lemma retag_retag [simp]: "retag s tag (retag s tag r) = retag s tag r"
  by (simp add: retag_def)

lemma pageNumber_retag [simp]: "pageNumber (retag s tag r) = pageNumber r"
  by (simp add: retag_def)


lemma applyTag_cases:
  assumes "tag \<noteq> []" and "getSelectedRegions s \<noteq> []"
  shows "applyTag env tag s =
     (if 1 < card (pageNumber ` set (taggedOrSelected tag s))
      then Inr (s\<lparr>isError := True,
                   errorMessage := Some (crossPageMessage env tag (card (pageNumber ` set (taggedOrSelected tag s))))\<rparr>)
      else (case convertRegionsToLabelData env (retagged tag s) (assetName (asset s)) of
              Inl e \<Rightarrow> Inl e
            | Inr ld \<Rightarrow> (case imageMap s of None \<Rightarrow> Inl TypeError
                          | Some fs \<Rightarrow> Inr (s\<lparr>regions := retagged tag s, labelData := Some ld,
                                               selectedRegionIds := []\<rparr>))))"
proof (cases "1 < card (pageNumber ` set (taggedOrSelected tag s))")
  case True
  then show ?thesis
    using assms by (simp add: applyTag_def Let_def showMultiPage_eq)
next
  case False
  define s1 where "s1 = s\<lparr>regions := map (retag s tag) (regions s)\<rparr>"
  have sel1: "getSelectedRegions s1 = filter (isSelectedRegion s) (map (retag s tag) (regions s))"
    unfolding getSelectedRegions_def s1_def
    by (simp add: isSelectedRegion_cong [of "s\<lparr>regions := map (retag s tag) (regions s)\<rparr>" s] cong: filter_cong)
  have "set (getSelectedRegions s1) \<subseteq> set (regions s1)"
    by (auto simp: getSelectedRegions_def)
  then have upd: "updateRegions env (getSelectedRegions s1) s1 =
      updateAssetRegions env (array_sort (compareRegionOrder (regionOrders s1)) (regions s1)) s1"
    by (rule updateRegions_of_present)
  have map_eq: "map (\<lambda>r. if isSelectedRegion s r then r\<lparr>tags := setSingleTag (tags r) tag\<rparr> else r) (regions s)
       = map (retag s tag) (regions s)"
    by (simp add: retag_def setSingleTag_def)
  have "applyTag env tag s =
      bindE (updateRegions env (getSelectedRegions s1) s1) (\<lambda>s2.
        case imageMap (s2\<lparr>selectedRegionIds := []\<rparr>) of None \<Rightarrow> Inl TypeError
        | Some fs \<Rightarrow> Inr (s2\<lparr>selectedRegionIds := []\<rparr>))"
    using assms False unfolding s1_def
    by (simp add: applyTag_def showMultiPage_eq map_eq Let_def)
  also have "\<dots> = (case convertRegionsToLabelData env (retagged tag s) (assetName (asset s)) of
              Inl e \<Rightarrow> Inl e
            | Inr ld \<Rightarrow> (case imageMap s of None \<Rightarrow> Inl TypeError
                          | Some fs \<Rightarrow> Inr (s\<lparr>regions := retagged tag s, labelData := Some ld,
                                               selectedRegionIds := []\<rparr>)))"
    unfolding upd
    by (simp add: s1_def updateAssetRegions_def bindE_def retagged_def split: sum.splits option.splits)
  finally show ?thesis using False by simp
qed

lemma getSelectedRegions_no_ids: "selectedRegionIds s = [] \<Longrightarrow> getSelectedRegions s = []"
  by (simp add: getSelectedRegions_def isSelectedRegion_def)









lemma applyTag_applied:
  assumes "tag \<noteq> []" and "getSelectedRegions s \<noteq> []"
    and "\<not> 1 < card (pageNumber ` set (taggedOrSelected tag s))"
    and "applyTag env tag s = Inr s'"
  obtains ld fs where "convertRegionsToLabelData env (retagged tag s) (assetName (asset s)) = Inr ld"
    and "imageMap s = Some fs"
    and "s' = s\<lparr>regions := retagged tag s, labelData := Some ld, selectedRegionIds := []\<rparr>"
proof (cases "convertRegionsToLabelData env (retagged tag s) (assetName (asset s))")
  case (Inl e)
  with assms applyTag_cases [OF assms(1,2), of env] show ?thesis by simp
next
  case (Inr ld)
  show ?thesis
  proof (cases "imageMap s")
    case None
    with Inr assms applyTag_cases [OF assms(1,2), of env] show ?thesis by simp
  next
    case (Some fs)
    with Inr assms applyTag_cases [OF assms(1,2), of env]
    have "s' = s\<lparr>regions := retagged tag s, labelData := Some ld, selectedRegionIds := []\<rparr>" by simp
    with Inr Some that show ?thesis by blast
  qed
qed

section \<open>Label data and regions\<close>

lemma uniq_from_map_inj:
  "inj f \<Longrightarrow> uniq_from (map f seen) (map f xs) = map f (uniq_from seen xs)"
proof (induction seen xs rule: uniq_from.induct)
  case (1 seen)
  then show ?case by simp
next
  case (2 seen x xs)
  then show ?case
    using "2.IH"(2) [OF _ "2.prems"] "2.IH"(1) [OF _ "2.prems"]
    by (auto simp: inj_image_mem_iff)
qed

lemma uniq_map_Some: "uniq (map Some xs) = map Some (uniq xs)"
  using uniq_from_map_inj [of Some "[]" xs] by (simp add: uniq_def)

lemma concat_map_Some:
  "concat (map (\<lambda>n. case n of None \<Rightarrow> [] | Some fieldName \<Rightarrow> [fieldName]) (map Some ys)) = ys"
  by (induction ys) auto

lemma regionKey_createRegion:
  "regionKey (createRegion env bbox txt f pg) = entryKey env (f, pg, bbox)"
  by (simp add: regionKey_def entryKey_def createRegion_def Let_def)

lemma map_snd_enum: "map (\<lambda>(i, x). h x) (enumerate n xs) = map h xs"
  by (induction xs arbitrary: n) auto

lemma regionKeys_formRegion:
  "map regionKey (case boundingBoxes v of None \<Rightarrow> []
      | Some bbs \<Rightarrow> map (\<lambda>(i, bbox). createRegion env bbox (getBoundingBoxTextFromRegion v i) f (page v))
                      (enumerate 0 bbs))
   = map (entryKey env) (formRegionEntries f v)"
proof (cases "boundingBoxes v")
  case None
  then show ?thesis by (simp add: formRegionEntries_def)
next
  case (Some bbs)
  have "map regionKey (map (\<lambda>(i, bbox). createRegion env bbox (getBoundingBoxTextFromRegion v i) f (page v)) (enumerate 0 bbs))
        = map (\<lambda>(i, bbox). entryKey env (f, page v, bbox)) (enumerate 0 bbs)"
    by (simp add: regionKey_createRegion split_def)
  also have "\<dots> = map (\<lambda>bbox. entryKey env (f, page v, bbox)) bbs"
    by (rule map_snd_enum)
  finally show ?thesis using Some by (simp add: formRegionEntries_def comp_def)
qed

lemma regionKeys_label:
  "map regionKey (case labelValue lb of None \<Rightarrow> []
      | Some vs \<Rightarrow> concat (map (\<lambda>v. case boundingBoxes v of None \<Rightarrow> []
          | Some bbs \<Rightarrow> map (\<lambda>(i, bbox). createRegion env bbox (getBoundingBoxTextFromRegion v i) (label lb) (page v))
                          (enumerate 0 bbs)) vs))
   = map (entryKey env) (labelEntries lb)"
proof (cases "labelValue lb")
  case None
  then show ?thesis by (simp add: labelEntries_def)
next
  case (Some vs)
  have "map regionKey (concat (map (\<lambda>v. case boundingBoxes v of None \<Rightarrow> []
          | Some bbs \<Rightarrow> map (\<lambda>(i, bbox). createRegion env bbox (getBoundingBoxTextFromRegion v i) (label lb) (page v))
                          (enumerate 0 bbs)) vs))
        = concat (map (\<lambda>v. map (entryKey env) (formRegionEntries (label lb) v)) vs)"
    by (simp only: map_concat map_map comp_def regionKeys_formRegion)
  also have "\<dots> = map (entryKey env) (concat (map (formRegionEntries (label lb)) vs))"
    by (simp add: map_concat comp_def)
  finally show ?thesis using Some by (simp add: labelEntries_def)
qed

lemma regionKeys_convertLabelDataToRegions:
  "map regionKey (convertLabelDataToRegions env ld) = map (entryKey env) (labelDataEntries ld)"
proof (cases "labels ld")
  case None
  then show ?thesis by (simp add: convertLabelDataToRegions_def labelDataEntries_def)
next
  case (Some ls)
  have "map regionKey (convertLabelDataToRegions env ld)
        = concat (map (\<lambda>lb. map (entryKey env) (labelEntries lb)) ls)"
    unfolding convertLabelDataToRegions_def Some option.case
    by (simp only: map_concat map_map comp_def regionKeys_label)
  also have "\<dots> = map (entryKey env) (concat (map labelEntries ls))"
    by (simp add: map_concat comp_def)
  finally show ?thesis using Some by (simp add: labelDataEntries_def)
qed

lemma firstTag_regionKey: "firstTag r = (case fst (regionKey r) of [] \<Rightarrow> None | t # ts \<Rightarrow> Some t)"
  by (simp add: firstTag_def regionKey_def)

lemma regionKey_fields:
  "tags r = fst (regionKey r)" "pageNumber r = fst (snd (regionKey r))" "id' r = snd (snd (regionKey r))"
  by (simp_all add: regionKey_def)

lemma firstTags_of_entries:
  assumes "map regionKey rs = map (entryKey env) es"
  shows "map firstTag rs = map Some (map fst es)"
proof -
  have "map firstTag rs = map (\<lambda>k. case fst k of [] \<Rightarrow> None | t # ts \<Rightarrow> Some t) (map regionKey rs)"
    by (simp add: firstTag_regionKey comp_def)
  also have "\<dots> = map Some (map fst es)"
    unfolding assms by (simp add: entryKey_def split_def comp_def)
  finally show ?thesis .
qed

lemma values_of_entries:
  assumes keys: "map regionKey rs = map (entryKey env) es"
    and rt: "\<forall>(f, pg, bbox) \<in> set es. bbox \<noteq> [] \<and> roundTrips env bbox pg"
  shows "map (\<lambda>r. (f, pageNumber r, parseRegionId env (id' r))) (filter (\<lambda>r. f \<in> set (tags r)) rs)
         = filter (\<lambda>e. fst e = f) es"
proof -
  have "map (\<lambda>r. (f, pageNumber r, parseRegionId env (id' r))) (filter (\<lambda>r. f \<in> set (tags r)) rs)
        = map (\<lambda>k. (f, fst (snd k), parseRegionId env (snd (snd k))))
            (filter (\<lambda>k. f \<in> set (fst k)) (map regionKey rs))"
    by (simp add: filter_map comp_def regionKey_fields)
  also have "\<dots> = map (\<lambda>e. (f, fst (snd e),
                      parseRegionId env (createRegionIdFromBoundingBox env (snd (snd e)) (fst (snd e)))))
                    (filter (\<lambda>e. fst e = f) es)"
    unfolding keys
    by (simp add: filter_map comp_def entryKey_def split_def eq_commute cong: filter_cong)
  also have "\<dots> = filter (\<lambda>e. fst e = f) es"
  proof (rule map_idI)
    fix e assume "e \<in> set (filter (\<lambda>e. fst e = f) es)"
    then have e: "e \<in> set es" "fst e = f" by simp_all
    obtain g pg bbox where eq: "e = (g, pg, bbox)" by (cases e)
    with e rt have "bbox \<noteq> [] \<and> roundTrips env bbox pg" by auto
    then have "parseRegionId env (createRegionIdFromBoundingBox env bbox pg) = bbox"
      by (simp add: parseRegionId_roundTrips)
    with e eq show "(f, fst (snd e),
        parseRegionId env (createRegionIdFromBoundingBox env (snd (snd e)) (fst (snd e)))) = e"
      by simp
  qed
  finally show ?thesis .
qed

lemma labelEntries_make:
  "labelEntries \<lparr> label = f, key = None,
       labelValue = Some (map (\<lambda>r. \<lparr> page = pageNumber r, text' = value' r,
                                      boundingBoxes = Some [parseRegionId env (id' r)] \<rparr>) rs') \<rparr>
   = map (\<lambda>r. (f, pageNumber r, parseRegionId env (id' r))) rs'"
  by (induction rs') (simp_all add: labelEntries_def formRegionEntries_def)

lemma set_concat_filter_groups:
  "set (concat (map (\<lambda>f. filter (\<lambda>e. fst e = f) es) (uniq (map fst es)))) = set es"
  by (auto simp: set_uniq)

section \<open>The example states\<close>

text \<open>
  The states of the examples are states of the component: building the index and drawing
  the OCR proposals on the loaded page gives the features and the index of
  \<open>drawn_state\<close>, and loading the label data for "Total" gives \<open>tagged_state\<close>.
\<close>

lemma drawn_state_reached:
  "map_sum id (\<lambda>s. (imageMap s, regions s, selectedRegionIds s,
       map (map_option (\<lambda>m. map m [featureId paid_feature, featureId amount_feature, featureId blank_feature]))
         (regionOrders s)))
     (bindE (buildRegionOrders decimal_js example_state) (drawOcr decimal_js))
   = Inr (imageMap drawn_state, regions drawn_state, selectedRegionIds drawn_state,
       map (map_option (\<lambda>m. map m [featureId paid_feature, featureId amount_feature, featureId blank_feature]))
         (regionOrders drawn_state))"
  by code_simp

lemma tagged_state_reached:
  "map_sum id (\<lambda>s. (imageMap s, regions s, labelData s, selectedRegionIds s))
     (loadLabelData decimal_js (asset drawn_state) (drawn_state\<lparr>labelData := Some total_label_data\<rparr>))
   = Inr (imageMap tagged_state, regions tagged_state, labelData tagged_state,
          selectedRegionIds tagged_state)"
  by code_simp

lemma same_page_state_reached:
  "map_sum id (\<lambda>s. (imageMap s, regions s, selectedRegionIds s))
     (handleFeatureSelect decimal_js paid_feature True tagged_state)
   = Inr (imageMap same_page_state, regions same_page_state, selectedRegionIds same_page_state)"
  by code_simp

section \<open>The claims\<close>

subsection \<open>Page navigation\<close>

text \<open>
  C1. The spec has \<open>goToPage\<close> leave the state as it is for a target page outside
  \<open>[1, numPages]\<close>. The code runs on: on a document of one page, after the word "Paid"
  has been selected, \<open>goToPage(5)\<close> clears the selection and deletes the region of the
  word; where a PDF backs the pages, it then fails in the renderer.
\<close>

theorem goToPage_out_of_range_prunes:
  "numPages drawn_state = 1 \<and>
   map_sum id (\<lambda>s. (currentPage s, map id' (regions s), selectedRegionIds s))
     (handleFeatureSelect decimal_js paid_feature True drawn_state)
     = Inr (1, [featureId paid_feature], [featureId paid_feature]) \<and>
   map_sum id (\<lambda>s. (currentPage s, map id' (regions s), selectedRegionIds s))
     (bindE (handleFeatureSelect decimal_js paid_feature True drawn_state) (goToPage decimal_js 5))
     = Inr (1, [], []) \<and>
   map_sum id currentPage
     (bindE (handleFeatureSelect decimal_js paid_feature True
               (drawn_state\<lparr>pdfFile := Some two_pages, numPages := 2\<rparr>))
            (goToPage decimal_js 5))
     = Inl RenderError"
  by code_simp

subsection \<open>Applying a tag\<close>

text \<open>
  C2. For a tag that is not empty and a selection that is not empty, \<open>applyTag\<close>
  rejects, returning the state as it was but for the error flag and the message that names
  the tag and the number of pages, exactly when the regions whose first tag is the tag,
  together with the selected regions, lie on more than one page. Otherwise, where it
  returns, it sets no message and clears the selection.
\<close>

theorem applyTag_rejects_cross_page:
  assumes "tag \<noteq> []" and "getSelectedRegions s \<noteq> []"
  shows "(applyTag env tag s =
            Inr (s\<lparr>isError := True,
                    errorMessage := Some (crossPageMessage env tag
                                            (card (pageNumber ` set (taggedOrSelected tag s))))\<rparr>)
          \<longleftrightarrow> 1 < card (pageNumber ` set (taggedOrSelected tag s))) \<and>
         (\<not> 1 < card (pageNumber ` set (taggedOrSelected tag s)) \<longrightarrow>
            (\<forall>s'. applyTag env tag s = Inr s' \<longrightarrow>
               selectedRegionIds s' = [] \<and> isError s' = isError s \<and> errorMessage s' = errorMessage s))"
proof -
  let ?n = "card (pageNumber ` set (taggedOrSelected tag s))"
  let ?rej = "s\<lparr>isError := True, errorMessage := Some (crossPageMessage env tag ?n)\<rparr>"
  have ids: "selectedRegionIds s \<noteq> []"
    using assms(2) getSelectedRegions_no_ids by blast
  have applied: "selectedRegionIds s' = [] \<and> isError s' = isError s \<and> errorMessage s' = errorMessage s"
    if n: "\<not> 1 < ?n" and a: "applyTag env tag s = Inr s'" for s'
  proof -
    from applyTag_applied [OF assms n a] obtain ld fs where
      "s' = s\<lparr>regions := retagged tag s, labelData := Some ld, selectedRegionIds := []\<rparr>"
      by blast
    then show ?thesis by simp
  qed
  have rej: "applyTag env tag s = Inr ?rej" if "1 < ?n"
    using that applyTag_cases [OF assms, of env] by simp
  have conv: "1 < ?n" if r: "applyTag env tag s = Inr ?rej"
  proof (rule ccontr)
    assume "\<not> 1 < ?n"
    from applied [OF this r] have "selectedRegionIds ?rej = []" by (rule conjunct1)
    with ids show False by simp
  qed
  have iff: "applyTag env tag s = Inr ?rej \<longleftrightarrow> 1 < ?n"
    by (rule iffI) (erule conv, erule rej)
  have rest: "\<not> 1 < ?n \<longrightarrow> (\<forall>s'. applyTag env tag s = Inr s' \<longrightarrow>
      selectedRegionIds s' = [] \<and> isError s' = isError s \<and> errorMessage s' = errorMessage s)"
    by (intro impI allI) (rule applied)
  from iff rest show ?thesis by (rule conjI)
qed

theorem applyTag_rejects_cross_page_witness:
  "getSelectedRegions cross_page_state \<noteq> [] \<and>
   map (\<lambda>r. (tags r, pageNumber r)) (regions cross_page_state) = [([''Total''], 1), ([], 2)] \<and>
   (\<exists>s'. applyTag decimal_js ''Total'' cross_page_state = Inr s' \<and>
      regions s' = regions cross_page_state \<and>
      selectedRegionIds s' = selectedRegionIds cross_page_state \<and>
      isError s' \<and>
      errorMessage s' =
        Some (''Sorry, we don't support cross-page regions with the same tag. You have regions with tag '' @
              [CHR 0x22] @ ''Total'' @ [CHR 0x22] @ '' across 2 pages.''))"
proof -
  have t: "''Total'' \<noteq> []" by simp
  have sel: "getSelectedRegions cross_page_state \<noteq> []" by code_simp
  have n: "card (pageNumber ` set (taggedOrSelected ''Total'' cross_page_state)) = 2" by code_simp
  have m: "crossPageMessage decimal_js ''Total'' 2 =
     ''Sorry, we don't support cross-page regions with the same tag. You have regions with tag '' @
     [CHR 0x22] @ ''Total'' @ [CHR 0x22] @ '' across 2 pages.''" by code_simp
  have tg: "map (\<lambda>r. (tags r, pageNumber r)) (regions cross_page_state) = [([''Total''], 1), ([], 2)]"
    by code_simp
  from applyTag_rejects_cross_page [OF t sel, of decimal_js]
  have "applyTag decimal_js ''Total'' cross_page_state =
     Inr (cross_page_state\<lparr>isError := True,
            errorMessage := Some (crossPageMessage decimal_js ''Total'' 2)\<rparr>)"
    by (simp add: n)
  then have "\<exists>s'. applyTag decimal_js ''Total'' cross_page_state = Inr s' \<and>
      regions s' = regions cross_page_state \<and>
      selectedRegionIds s' = selectedRegionIds cross_page_state \<and>
      isError s' \<and>
      errorMessage s' = Some (crossPageMessage decimal_js ''Total'' 2)"
    by simp
  with sel tg show ?thesis unfolding m by blast
qed



subsection \<open>Label data and regions\<close>

text \<open>
  C3. The round trip from label data to regions and back. As the spec states it, the field
  names of the label data come back; a label without a bounding box does not, since no
  region stands for it. What holds: where every box of
  the label data is not empty and its numbers survive writing and reading, the result has
  the field names that carry a box, each once in the order of first occurrence, and under
  each field name the pages and boxes of the label data for it, in their order.
\<close>

theorem label_data_round_trip:
  assumes "\<forall>(f, pg, bbox) \<in> set (labelDataEntries L). bbox \<noteq> [] \<and> roundTrips env bbox pg"
    and "decodeURIComponent env name = Some decoded"
  shows "\<exists>L'. convertRegionsToLabelData env (convertLabelDataToRegions env L) name = Inr L' \<and>
           document L' = last (split_on CHR ''/'' decoded) \<and>
           fieldNames L' = uniq (map fst (labelDataEntries L)) \<and>
           labelDataEntries L' =
             concat (map (\<lambda>f. filter (\<lambda>e. fst e = f) (labelDataEntries L))
                       (uniq (map fst (labelDataEntries L)))) \<and>
           set (labelDataEntries L') = set (labelDataEntries L)"
proof -
  let ?rs = "convertLabelDataToRegions env L"
  let ?es = "labelDataEntries L"
  let ?mk = "\<lambda>fieldName. \<lparr> label = fieldName, key = None,
                 labelValue = Some (map (\<lambda>r. \<lparr> page = pageNumber r, text' = value' r,
                                               boundingBoxes = Some [parseRegionId env (id' r)] \<rparr>)
                                     (filter (\<lambda>r. fieldName \<in> set (tags r)) ?rs)) \<rparr>"
  have keys: "map regionKey ?rs = map (entryKey env) ?es"
    by (rule regionKeys_convertLabelDataToRegions)
  have names: "concat (map (\<lambda>n. case n of None \<Rightarrow> [] | Some fieldName \<Rightarrow> [fieldName]) (uniq (map firstTag ?rs)))
               = uniq (map fst ?es)"
    by (simp only: firstTags_of_entries [OF keys] uniq_map_Some concat_map_Some)
  define L' where "L' = \<lparr> document = last (split_on CHR ''/'' decoded),
                           labels = Some (map ?mk (uniq (map fst ?es))) \<rparr>"
  have conv: "convertRegionsToLabelData env ?rs name = Inr L'"
    unfolding convertRegionsToLabelData_def assms(2) option.case Let_def names L'_def ..
  have fields: "fieldNames L' = uniq (map fst ?es)"
    by (simp add: fieldNames_def L'_def comp_def)
  have "labelDataEntries L' = concat (map (\<lambda>f. labelEntries (?mk f)) (uniq (map fst ?es)))"
    by (simp add: labelDataEntries_def L'_def comp_def)
  also have "\<dots> = concat (map (\<lambda>f. filter (\<lambda>e. fst e = f) ?es) (uniq (map fst ?es)))"
    by (simp only: labelEntries_make values_of_entries [OF keys assms(1)])
  finally have entries: "labelDataEntries L' =
      concat (map (\<lambda>f. filter (\<lambda>e. fst e = f) ?es) (uniq (map fst ?es)))" .
  have "document L' = last (split_on CHR ''/'' decoded)" by (simp add: L'_def)
  with conv fields entries set_concat_filter_groups [of ?es] show ?thesis
    by (intro exI [of _ L']) simp
qed

theorem label_data_round_trip_witness:
  "amount_box \<noteq> [] \<and> roundTrips decimal_js amount_box 1 \<and>
   paid_box \<noteq> [] \<and> roundTrips decimal_js paid_box 1 \<and>
   labelDataEntries example_label_data = [(''Total'', 1, amount_box), (''Status'', 1, paid_box)] \<and>
   (\<exists>L'. convertRegionsToLabelData decimal_js (convertLabelDataToRegions decimal_js example_label_data)
            ''folder/invoice.png'' = Inr L' \<and>
      document L' = ''invoice.png'' \<and>
      fieldNames L' = [''Total'', ''Status''] \<and>
      labelDataEntries L' = [(''Total'', 1, amount_box), (''Status'', 1, paid_box)])"
proof -
  have h: "\<forall>(f, pg, bbox) \<in> set (labelDataEntries example_label_data). bbox \<noteq> [] \<and> roundTrips decimal_js bbox pg"
    by code_simp
  have d: "decodeURIComponent decimal_js ''folder/invoice.png'' = Some ''folder/invoice.png''"
    by (simp add: decimal_js_def)
  have e: "labelDataEntries example_label_data = [(''Total'', 1, amount_box), (''Status'', 1, paid_box)]"
    by code_simp
  have c: "last (split_on CHR ''/'' ''folder/invoice.png'') = ''invoice.png''"
    "uniq (map fst [(''Total'', 1 :: int, amount_box), (''Status'', 1, paid_box)]) = [''Total'', ''Status'']"
    "concat (map (\<lambda>f. filter (\<lambda>e. fst e = f) [(''Total'', 1 :: int, amount_box), (''Status'', 1, paid_box)])
       [''Total'', ''Status'']) = [(''Total'', 1, amount_box), (''Status'', 1, paid_box)]"
    by code_simp+
  from label_data_round_trip [OF h d] obtain L' where
    "convertRegionsToLabelData decimal_js (convertLabelDataToRegions decimal_js example_label_data)
       ''folder/invoice.png'' = Inr L'"
    "document L' = last (split_on CHR ''/'' ''folder/invoice.png'')"
    "fieldNames L' = uniq (map fst (labelDataEntries example_label_data))"
    "labelDataEntries L' =
       concat (map (\<lambda>f. filter (\<lambda>e. fst e = f) (labelDataEntries example_label_data))
                 (uniq (map fst (labelDataEntries example_label_data))))"
    by blast
  then have "convertRegionsToLabelData decimal_js (convertLabelDataToRegions decimal_js example_label_data)
       ''folder/invoice.png'' = Inr L' \<and>
      document L' = ''invoice.png'' \<and>
      fieldNames L' = [''Total'', ''Status''] \<and>
      labelDataEntries L' = [(''Total'', 1, amount_box), (''Status'', 1, paid_box)]"
    unfolding e c by simp
  moreover from h have "amount_box \<noteq> [] \<and> roundTrips decimal_js amount_box 1 \<and>
      paid_box \<noteq> [] \<and> roundTrips decimal_js paid_box 1"
    by (simp add: e)
  ultimately show ?thesis using e by blast
qed

theorem label_without_box_is_dropped:
  "fieldNames empty_label_data = [''Total''] \<and>
   labelDataEntries empty_label_data = [] \<and>
   map_sum id fieldNames
     (convertRegionsToLabelData decimal_js (convertLabelDataToRegions decimal_js empty_label_data)
        ''invoice.png'') = Inr []"
  by code_simp

subsection \<open>Region order index\<close>

text \<open>
  C4. The index of a page gives the words that pass the display filter, in the order of
  lines and then words, the ranks 0, 1, 2, ... (under the region id of the word, a later rank
  replacing an earlier one for the same id): a word whose region id no later word of the
  page repeats has as rank its position among the displayed words, and the ids of the
  displayed words are all the keys of the index. The filter excludes a word exactly when
  its text is one underscore or more and nothing else. \<open>buildRegionOrders\<close> stores this
  index at the place of the page.
\<close>

theorem region_order_index:
  "(shouldDisplayOcrWord t \<longleftrightarrow> \<not> (t \<noteq> [] \<and> set t \<subseteq> {CHR ''_''})) \<and>
   orderPage env ie p = rank_from 0 (displayedWordIds env ie p) Map.empty \<and>
   dom (orderPage env ie p) = set (displayedWordIds env ie p) \<and>
   (\<forall>i < length (displayedWordIds env ie p).
      (\<forall>j. i < j \<and> j < length (displayedWordIds env ie p) \<longrightarrow>
           displayedWordIds env ie p ! j \<noteq> displayedWordIds env ie p ! i) \<longrightarrow>
      orderPage env ie p (displayedWordIds env ie p ! i) = Some i) \<and>
   (\<forall>ocrs before after. ocr s = Some ocrs \<and> ocrResultPages ocrs = Some (before @ p # after) \<and>
      imageMap s \<noteq> None \<and> 1 \<le> ocrPage p \<and> (\<forall>q\<in>set after. ocrPage q \<noteq> ocrPage p) \<longrightarrow>
      (\<exists>s'. buildRegionOrders env s = Inr s' \<and>
            regionOrders s' ! nat (ocrPage p - 1) = Some (orderPage env (getImageExtent s) p)))"
proof (intro conjI allI impI)
  show "shouldDisplayOcrWord t \<longleftrightarrow> \<not> (t \<noteq> [] \<and> set t \<subseteq> {CHR ''_''})"
    by (simp add: shouldDisplayOcrWord_def match_underscores_iff)
next
  show "orderPage env ie p = rank_from 0 (displayedWordIds env ie p) Map.empty"
    by (rule orderPage_rank_from)
next
  show "dom (orderPage env ie p) = set (displayedWordIds env ie p)"
    by (simp add: orderPage_rank_from dom_rank_from)
next
  fix i
  assume "i < length (displayedWordIds env ie p)"
    and "\<forall>j. i < j \<and> j < length (displayedWordIds env ie p) \<longrightarrow>
           displayedWordIds env ie p ! j \<noteq> displayedWordIds env ie p ! i"
  then show "orderPage env ie p (displayedWordIds env ie p ! i) = Some i"
    using rank_from_last_occurrence [of i "displayedWordIds env ie p" 0 Map.empty]
    by (simp add: orderPage_rank_from)
next
  fix ocrs before after
  assume a: "ocr s = Some ocrs \<and> ocrResultPages ocrs = Some (before @ p # after) \<and>
      imageMap s \<noteq> None \<and> 1 \<le> ocrPage p \<and> (\<forall>q\<in>set after. ocrPage q \<noteq> ocrPage p)"
  then obtain fs where fs: "imageMap s = Some fs" by auto
  from a have pages: "(case recognitionResults ocrs of Some rs \<Rightarrow> Some rs | None \<Rightarrow> readResults ocrs)
      = Some (before @ p # after)"
    by (simp add: ocrResultPages_def)
  let ?ros = "fold (\<lambda>p ros. array_set ros (ocrPage p - 1) (orderPage env (getImageExtent s) p))
                (before @ p # after) (regionOrders s)"
  have b: "buildRegionOrders env s = Inr (s\<lparr>regionOrders := ?ros\<rparr>)"
    using a fs by (simp add: buildRegionOrders_def)
  have "?ros ! nat (ocrPage p - 1) = Some (orderPage env (getImageExtent s) p)"
    using a by (intro fold_array_set_last [of _ before p after]) auto
  with b show "\<exists>s'. buildRegionOrders env s = Inr s' \<and>
            regionOrders s' ! nat (ocrPage p - 1) = Some (orderPage env (getImageExtent s) p)"
    by simp
qed

theorem region_order_index_witness:
  "displayedWordIds decimal_js example_extent example_page =
     [featureId paid_feature, featureId amount_feature] \<and>
   orderPage decimal_js example_extent example_page (featureId paid_feature) = Some 0 \<and>
   orderPage decimal_js example_extent example_page (featureId amount_feature) = Some 1 \<and>
   featureId blank_feature \<notin> dom (orderPage decimal_js example_extent example_page) \<and>
   \<not> shouldDisplayOcrWord ''___'' \<and> shouldDisplayOcrWord ''Paid'' \<and> shouldDisplayOcrWord ''$10'' \<and>
   (\<exists>s'. buildRegionOrders decimal_js example_state = Inr s' \<and>
      regionOrders s' ! 0 = Some (orderPage decimal_js example_extent example_page))"
proof -
  note inst = region_order_index [of _ decimal_js example_extent example_page example_state]
  have ids: "displayedWordIds decimal_js example_extent example_page =
     [featureId paid_feature, featureId amount_feature]" by code_simp
  have ne: "featureId amount_feature \<noteq> featureId paid_feature" by code_simp
  have blank: "featureId blank_feature \<notin> set [featureId paid_feature, featureId amount_feature]"
    by code_simp
  let ?D = "displayedWordIds decimal_js example_extent example_page"
  have ranks: "\<forall>i < length ?D. (\<forall>j. i < j \<and> j < length ?D \<longrightarrow> ?D ! j \<noteq> ?D ! i) \<longrightarrow>
      orderPage decimal_js example_extent example_page (?D ! i) = Some i"
    using inst [of "[]"] by (elim conjE)
  have len: "0 < length ?D" "1 < length ?D" by (simp_all add: ids)
  have later0: "\<forall>j. 0 < j \<and> j < length ?D \<longrightarrow> ?D ! j \<noteq> ?D ! 0"
    using ne by (auto simp: ids less_Suc_eq)
  have later1: "\<forall>j. 1 < j \<and> j < length ?D \<longrightarrow> ?D ! j \<noteq> ?D ! 1"
    by (auto simp: ids)
  from ranks len(1) later0 have "orderPage decimal_js example_extent example_page (?D ! 0) = Some 0"
    by blast
  then have 0: "orderPage decimal_js example_extent example_page (featureId paid_feature) = Some 0"
    by (simp add: ids)
  from ranks len(2) later1 have "orderPage decimal_js example_extent example_page (?D ! 1) = Some 1"
    by blast
  then have 1: "orderPage decimal_js example_extent example_page (featureId amount_feature) = Some 1"
    by (simp add: ids)
  have d: "featureId blank_feature \<notin> dom (orderPage decimal_js example_extent example_page)"
    using inst [of "[]", THEN conjunct2, THEN conjunct2, THEN conjunct1] blank by (simp add: ids)
  have w: "\<not> shouldDisplayOcrWord ''___''" "shouldDisplayOcrWord ''Paid''" "shouldDisplayOcrWord ''$10''"
    using inst [of "''___''", THEN conjunct1] inst [of "''Paid''", THEN conjunct1]
      inst [of "''$10''", THEN conjunct1] by simp_all
  have pre: "ocr example_state = Some \<lparr> recognitionResults = None, readResults = Some [example_page] \<rparr> \<and>
      ocrResultPages \<lparr> recognitionResults = None, readResults = Some [example_page] \<rparr> = Some ([] @ example_page # []) \<and>
      imageMap example_state \<noteq> None \<and> 1 \<le> ocrPage example_page \<and>
      (\<forall>q\<in>set []. ocrPage q \<noteq> ocrPage example_page)"
    by (simp add: example_state_def ocrResultPages_def example_page_def)
  have ext: "getImageExtent example_state = example_extent"
    by (simp add: getImageExtent_def example_state_def example_extent_def)
  have pg: "nat (ocrPage example_page - 1) = 0" by (simp add: example_page_def)
  have b: "\<exists>s'. buildRegionOrders decimal_js example_state = Inr s' \<and>
      regionOrders s' ! 0 = Some (orderPage decimal_js example_extent example_page)"
    using inst [of "[]", THEN conjunct2, THEN conjunct2, THEN conjunct2, THEN conjunct2,
        rule_format, OF pre]
    by (simp only: ext pg)
  from ids 0 1 d w b show ?thesis by simp
qed

text \<open>
  C5. \<open>getRegionOrder\<close> gives page 1 and order 0 for a region id that no page of the
  index has, and otherwise the page and order of the first page that has it;
  \<open>compareRegionOrder\<close> orders by page first, then by order.
\<close>

theorem compare_region_order:
  "((\<forall>m. Some m \<in> set ros \<longrightarrow> m rid = None) \<longrightarrow> getRegionOrder ros rid = (1, 0)) \<and>
   (\<forall>i m order. i < length ros \<and> ros ! i = Some m \<and> m rid = Some order \<and>
        (\<forall>j<i. \<forall>mj. ros ! j = Some mj \<longrightarrow> mj rid = None) \<longrightarrow>
        getRegionOrder ros rid = (int i + 1, order)) \<and>
   compareRegionOrder ros r1 r2 =
     (if fst (getRegionOrder ros (id' r2)) < fst (getRegionOrder ros (id' r1)) \<or>
         fst (getRegionOrder ros (id' r1)) = fst (getRegionOrder ros (id' r2)) \<and>
         snd (getRegionOrder ros (id' r2)) < snd (getRegionOrder ros (id' r1))
      then 1 else - 1)"
proof (intro conjI allI impI)
  assume "\<forall>m. Some m \<in> set ros \<longrightarrow> m rid = None"
  then show "getRegionOrder ros rid = (1, 0)"
    by (simp add: getRegionOrder_def findRegionOrder_absent)
next
  fix i m order
  assume "i < length ros \<and> ros ! i = Some m \<and> m rid = Some order \<and>
        (\<forall>j<i. \<forall>mj. ros ! j = Some mj \<longrightarrow> mj rid = None)"
  then have "findRegionOrder ros rid 0 = Some (int (0 + i) + 1, order)"
    using findRegionOrder_first [of i ros m rid order 0] by blast
  then show "getRegionOrder ros rid = (int i + 1, order)"
    by (simp add: getRegionOrder_def)
next
  show "compareRegionOrder ros r1 r2 =
     (if fst (getRegionOrder ros (id' r2)) < fst (getRegionOrder ros (id' r1)) \<or>
         fst (getRegionOrder ros (id' r1)) = fst (getRegionOrder ros (id' r2)) \<and>
         snd (getRegionOrder ros (id' r2)) < snd (getRegionOrder ros (id' r1))
      then 1 else - 1)"
    by (auto simp: compareRegionOrder_def Let_def)
qed

theorem compare_region_order_witness:
  "getRegionOrder example_orders ''0.3,0.3,0.4,0.3,0.4,0.4,0.3,0.4:1'' = (1, 0) \<and>
   getRegionOrder example_orders (featureId amount_feature) = (1, 1) \<and>
   compareRegionOrder example_orders total_region (untagged_region paid_box ''Paid'' 1) = 1 \<and>
   compareRegionOrder example_orders (untagged_region paid_box ''Paid'' 1) total_region = - 1"
proof -
  let ?m = "orderPage decimal_js example_extent example_page"
  note inst = compare_region_order [of example_orders]
  have absent: "\<forall>m. Some m \<in> set example_orders \<longrightarrow> m ''0.3,0.3,0.4,0.3,0.4,0.4,0.3,0.4:1'' = None"
  proof -
    have "?m ''0.3,0.3,0.4,0.3,0.4,0.4,0.3,0.4:1'' = None" by code_simp
    then show ?thesis by (simp add: example_orders_def)
  qed
  have 1: "getRegionOrder example_orders ''0.3,0.3,0.4,0.3,0.4,0.4,0.3,0.4:1'' = (1, 0)"
    using inst [of "''0.3,0.3,0.4,0.3,0.4,0.4,0.3,0.4:1''"] absent by blast
  have present: "0 < length example_orders \<and> example_orders ! 0 = Some ?m \<and>
      ?m (featureId amount_feature) = Some 1 \<and>
      (\<forall>j<0. \<forall>mj. example_orders ! j = Some mj \<longrightarrow> mj (featureId amount_feature) = None)"
  proof -
    have "?m (featureId amount_feature) = Some 1" by code_simp
    then show ?thesis by (simp add: example_orders_def)
  qed
  have 2: "getRegionOrder example_orders (featureId amount_feature) = (int 0 + 1, 1)"
    using inst [of "featureId amount_feature", THEN conjunct2, THEN conjunct1, rule_format, OF present] .
  have keys: "getRegionOrder example_orders (id' total_region) = (1, 1)"
    "getRegionOrder example_orders (id' (untagged_region paid_box ''Paid'' 1)) = (1, 0)"
    by code_simp+
  have 3: "compareRegionOrder example_orders total_region (untagged_region paid_box ''Paid'' 1) = 1"
    using inst [of undefined total_region "untagged_region paid_box ''Paid'' 1"] by (simp add: keys)
  have 4: "compareRegionOrder example_orders (untagged_region paid_box ''Paid'' 1) total_region = - 1"
    using inst [of undefined "untagged_region paid_box ''Paid'' 1" total_region] by (simp add: keys)
  from 1 2 3 4 show ?thesis by simp
qed

subsection \<open>Coordinates and region ids\<close>



text \<open>
  C7. Decoding the encoded region id of a coordinate list that is not empty gives the
  list back, where the numbers of the list survive writing and reading.
\<close>

theorem region_id_round_trip:
  assumes "xs \<noteq> []" and "roundTrips env xs pg"
  shows "parseRegionId env (createRegionIdFromBoundingBox env xs pg) = xs"
  using assms by (rule parseRegionId_roundTrips)

theorem region_id_round_trip_witness:
  "paid_box \<noteq> [] \<and> roundTrips decimal_js paid_box 1 \<and>
   createRegionIdFromBoundingBox decimal_js paid_box 1 = ''0.1,0.1,0.5,0.1,0.5,0.2,0.1,0.2:1'' \<and>
   parseRegionId decimal_js ''0.1,0.1,0.5,0.1,0.5,0.2,0.1,0.2:1'' = paid_box"
proof -
  have 1: "paid_box \<noteq> []" by code_simp
  have 2: "roundTrips decimal_js paid_box 1" by code_simp
  have 3: "createRegionIdFromBoundingBox decimal_js paid_box 1 = ''0.1,0.1,0.5,0.1,0.5,0.2,0.1,0.2:1''"
    by code_simp
  from region_id_round_trip [OF 1 2] 1 2 3 show ?thesis by simp
qed

subsection \<open>Selection and deletion\<close>

text \<open>
  C8. The spec has the toggle of a selected region deselect it and, when it has no tag,
  delete it. The code looks the region up at the position of its id among the selected ids,
  in the list of selected regions, which is in the order of the region list: after "Paid"
  and then the tagged "$10" have been selected, the toggle of "Paid" deselects it and leaves
  it, without a tag, in the region list; the toggle of "$10" instead deletes that region,
  which has a tag.
\<close>

theorem toggle_keeps_untagged_region:
  "map (\<lambda>r. (id' r, tags r)) (regions tagged_state) = [(featureId amount_feature, [''Total''])] \<and>
   selectedRegionIds tagged_state = [] \<and>
   map_sum id (\<lambda>s. (selectedRegionIds s, map (\<lambda>r. (id' r, tags r)) (regions s)))
     (bindE (handleFeatureSelect decimal_js paid_feature True tagged_state)
            (handleFeatureSelect decimal_js amount_feature True))
   = Inr ([featureId paid_feature, featureId amount_feature],
          [(featureId amount_feature, [''Total'']), (featureId paid_feature, [])]) \<and>
   map_sum id (\<lambda>s. (selectedRegionIds s, map (\<lambda>r. (id' r, tags r)) (regions s)))
     (bindE (bindE (handleFeatureSelect decimal_js paid_feature True tagged_state)
                   (handleFeatureSelect decimal_js amount_feature True))
            (handleFeatureSelect decimal_js paid_feature True))
   = Inr ([featureId amount_feature],
          [(featureId amount_feature, [''Total'']), (featureId paid_feature, [])]) \<and>
   map_sum id (\<lambda>s. (selectedRegionIds s, map (\<lambda>r. (id' r, tags r)) (regions s)))
     (bindE (bindE (handleFeatureSelect decimal_js paid_feature True tagged_state)
                   (handleFeatureSelect decimal_js amount_feature True))
            (handleFeatureSelect decimal_js amount_feature True))
   = Inr ([featureId paid_feature], [(featureId paid_feature, [])])"
  by code_simp

text \<open>
  C10. Deleting regions leaves the OCR proposals on the map as they are: the features that
  \<open>deleteRegionsFromImageMap\<close> takes from the map are not OCR proposals,
  \<open>deleteRegions\<close> changes the map in no other way, and \<open>onRegionDelete\<close> does not
  change the map.
\<close>

theorem deletion_keeps_ocr_proposals:
  "ocrProposals (deleteRegionsFromImageMap rs s) = ocrProposals s \<and>
   (\<forall>fs fs'. imageMap s = Some fs \<and> imageMap (deleteRegionsFromImageMap rs s) = Some fs' \<longrightarrow>
      set fs' \<subseteq> set fs \<and> (\<forall>f\<in>set fs. f \<notin> set fs' \<longrightarrow> \<not> isOcrProposal f)) \<and>
   (\<forall>s'. deleteRegions env rs s = Inr s' \<longrightarrow> ocrProposals s' = ocrProposals s) \<and>
   (\<forall>s'. onRegionDelete env regionId s = Inr s' \<longrightarrow> imageMap s' = imageMap s)"
proof (intro conjI allI impI)
  show "ocrProposals (deleteRegionsFromImageMap rs s) = ocrProposals s"
    by (rule ocrProposals_deleteRegionsFromImageMap)
next
  fix fs fs'
  assume a: "imageMap s = Some fs \<and> imageMap (deleteRegionsFromImageMap rs s) = Some fs'"
  have *: "set fs' \<subseteq> set fs \<and> (\<forall>f\<in>set fs. isOcrProposal f \<longrightarrow> f \<in> set fs')"
    by (rule removed_features_not_ocr [of s fs rs fs']) (simp_all add: a)
  from * show "set fs' \<subseteq> set fs" by (rule conjunct1)
  from * have "\<forall>f\<in>set fs. isOcrProposal f \<longrightarrow> f \<in> set fs'" by (rule conjunct2)
  then show "\<forall>f\<in>set fs. f \<notin> set fs' \<longrightarrow> \<not> isOcrProposal f" by blast
next
  fix s' assume "deleteRegions env rs s = Inr s'"
  then show "ocrProposals s' = ocrProposals s" by (rule ocrProposals_deleteRegions)
next
  fix s' assume "onRegionDelete env regionId s = Inr s'"
  then show "imageMap s' = imageMap s"
    unfolding onRegionDelete_def Let_def by (rule imageMap_updateAssetRegions)
qed

theorem deletion_keeps_ocr_proposals_witness:
  "ocrProposals labelled_state = [paid_feature, amount_feature] \<and>
   imageMap labelled_state =
     Some [paid_feature, amount_feature,
           convertRegionToFeature decimal_js labelled_region example_extent False] \<and>
   imageMap (deleteRegionsFromImageMap (getSelectedRegions labelled_state) labelled_state) =
     Some [paid_feature, amount_feature] \<and>
   \<not> isOcrProposal (convertRegionToFeature decimal_js labelled_region example_extent False) \<and>
   (\<exists>s'. deleteRegions decimal_js (getSelectedRegions labelled_state) labelled_state = Inr s' \<and>
      ocrProposals s' = [paid_feature, amount_feature] \<and>
      imageMap s' = Some [paid_feature, amount_feature] \<and> regions s' = []) \<and>
   (\<exists>s'. onRegionDelete decimal_js (id' labelled_region) labelled_state = Inr s' \<and>
      imageMap s' = imageMap labelled_state \<and> regions s' = [])"
proof -
  let ?rs = "getSelectedRegions labelled_state"
  let ?f = "convertRegionToFeature decimal_js labelled_region example_extent False"
  note inst = deletion_keeps_ocr_proposals [of ?rs labelled_state decimal_js "id' labelled_region"]
  have p: "ocrProposals labelled_state = [paid_feature, amount_feature]" by code_simp
  have m: "imageMap labelled_state = Some [paid_feature, amount_feature, ?f]" by code_simp
  have m': "imageMap (deleteRegionsFromImageMap ?rs labelled_state) = Some [paid_feature, amount_feature]"
    by code_simp
  have gone: "?f \<notin> set [paid_feature, amount_feature]" by code_simp
  from inst m m' have "\<forall>f\<in>set [paid_feature, amount_feature, ?f].
      f \<notin> set [paid_feature, amount_feature] \<longrightarrow> \<not> isOcrProposal f"
    by blast
  with gone have n: "\<not> isOcrProposal ?f" by simp
  have r: "map_sum id (\<lambda>s. (imageMap s, regions s)) (deleteRegions decimal_js ?rs labelled_state)
           = Inr (Some [paid_feature, amount_feature], [])"
    by code_simp
  then obtain s' where s': "deleteRegions decimal_js ?rs labelled_state = Inr s'"
    and f: "imageMap s' = Some [paid_feature, amount_feature]" "regions s' = []"
    by (cases "deleteRegions decimal_js ?rs labelled_state") auto
  from inst s' have "ocrProposals s' = ocrProposals labelled_state" by blast
  with p s' f have d: "\<exists>s'. deleteRegions decimal_js ?rs labelled_state = Inr s' \<and>
      ocrProposals s' = [paid_feature, amount_feature] \<and>
      imageMap s' = Some [paid_feature, amount_feature] \<and> regions s' = []"
    by simp
  have "map_sum id regions (onRegionDelete decimal_js (id' labelled_region) labelled_state) = Inr []"
    by code_simp
  then obtain s'' where s'': "onRegionDelete decimal_js (id' labelled_region) labelled_state = Inr s''"
    and g: "regions s'' = []"
    by (cases "onRegionDelete decimal_js (id' labelled_region) labelled_state") auto
  from inst s'' have "imageMap s'' = imageMap labelled_state" by blast
  with s'' g have o: "\<exists>s'. onRegionDelete decimal_js (id' labelled_region) labelled_state = Inr s' \<and>
      imageMap s' = imageMap labelled_state \<and> regions s' = []"
    by simp
  from p m m' n d o show ?thesis by simp
qed

end
